theory Spec2Isabelle
  imports Main "HOL-Library.Multiset"
begin

section \<open>The document as the element sees it\<close>

text \<open>
  The element \<open>dash-tablist\<close> (class \<open>TabList\<close> of \<open>dash-tab-panel.js\<close>) reads and writes
  the document only through \<open>querySelectorAll\<close>, \<open>getAttribute\<close>, \<open>setAttribute\<close>, the
  properties \<open>id\<close> and \<open>tabIndex\<close>, \<open>appendChild\<close>, \<open>focus\<close> and the listener registry.
  A node is identified by a handle (a natural number); the shape of the subtree below the
  container is a rose tree of handles, and the attributes live in a store indexed by handle,
  so that writing an attribute of one node never touches another.
\<close>

datatype node = Node (handle: nat) (childNodes: "node list")

record elem =
  role :: "string option"
  elem_id :: string
  aria_controls :: "string option"
  aria_selected :: "string option"
  aria_hidden :: "string option"
  aria_labelledby :: "string option"
  tabIndex :: int

text \<open>
  \<open>getAttribute\<close> yields \<open>null\<close> (here \<open>None\<close>) for an absent attribute; the property
  \<open>id\<close> yields the empty string when the attribute is absent, so \<open>elem_id\<close> is a string.
\<close>

text \<open>
  The document: the container with the tree below it, the attributes of every node, the
  focused node, and the event types for which the container has its handler registered.
\<close>

record dom =
  tree :: node
  store :: "nat \<Rightarrow> elem"
  activeElement :: "nat option"
  listeners :: "string list"

datatype js_error = ReferenceError string | TypeError string

text \<open>
  A call either returns (\<open>Inr\<close>, with the document as it is afterwards) or throws
  (\<open>Inl\<close>, with the error and the document as the statements before the throw left it).
\<close>

type_synonym outcome = "(js_error \<times> dom) + dom"

record event =
  target :: nat
  keyCode :: int
  altKey :: bool
  defaultPrevented :: bool

subsection \<open>Document order and moving nodes\<close>

fun preorder :: "node \<Rightarrow> nat list" where
  "preorder (Node h ks) = h # concat (map preorder ks)"

definition descendants :: "node \<Rightarrow> nat list" where
  "descendants t = concat (map preorder (childNodes t))"

fun firstSome :: "'a option list \<Rightarrow> 'a option" where
  "firstSome [] = None"
| "firstSome (None # xs) = firstSome xs"
| "firstSome (Some x # xs) = Some x"

fun subtree :: "nat \<Rightarrow> node \<Rightarrow> node option" where
  "subtree h (Node i ks) =
     (if i = h then Some (Node i ks) else firstSome (map (subtree h) ks))"

fun prune :: "nat \<Rightarrow> node \<Rightarrow> node" where
  "prune h (Node i ks) = Node i (filter (\<lambda>k. handle k \<noteq> h) (map (prune h) ks))"

text \<open>
  \<open>this.appendChild(c)\<close> for a node \<open>c\<close> that is already below the container: the node is
  taken out of its parent, with everything below it, and becomes the last child of the
  container. (The element only ever passes its own descendants.)
\<close>

fun appendChild :: "node \<Rightarrow> nat \<Rightarrow> node" where
  "appendChild (Node r ks) c =
     (case firstSome (map (subtree c) ks) of
        None \<Rightarrow> Node r ks
      | Some sub \<Rightarrow> Node r (filter (\<lambda>k. handle k \<noteq> c) (map (prune c) ks) @ [sub]))"

subsection \<open>JavaScript arithmetic and array access\<close>

text \<open>
  \<open>a % b\<close> on integers: the remainder takes the sign of the dividend, and is \<open>NaN\<close>
  (here \<open>None\<close>) when the divisor is zero. \<open>xs[i]\<close> is \<open>undefined\<close> (here \<open>None\<close>)
  when \<open>i\<close> is \<open>NaN\<close> or outside the array; \<open>-0\<close> indexes like \<open>0\<close>.
\<close>

definition js_rem :: "int \<Rightarrow> int \<Rightarrow> int option" where
  "js_rem a b = (if b = 0 then None else Some (sgn a * (\<bar>a\<bar> mod \<bar>b\<bar>)))"

fun js_nth :: "'a list \<Rightarrow> int option \<Rightarrow> 'a option" where
  "js_nth xs None = None"
| "js_nth xs (Some i) = (if 0 \<le> i \<and> i < int (length xs) then Some (xs ! nat i) else None)"

text \<open>\<open>Array.prototype.findIndex\<close>: the index of the first match, or \<open>-1\<close>.\<close>

fun findIndex :: "('a \<Rightarrow> bool) \<Rightarrow> 'a list \<Rightarrow> int" where
  "findIndex P [] = - 1"
| "findIndex P (x # xs) =
     (if P x then 0 else (let i = findIndex P xs in if i < 0 then - 1 else i + 1))"

text \<open>A string or \<open>null\<close> in a boolean position: \<open>null\<close> and the empty string are falsy.\<close>

fun truthy :: "string option \<Rightarrow> bool" where
  "truthy None = False"
| "truthy (Some s) = (s \<noteq> [])"

section \<open>The class TabList\<close>

definition KEYCODE_DOWN :: int where "KEYCODE_DOWN = 40"
definition KEYCODE_LEFT :: int where "KEYCODE_LEFT = 37"
definition KEYCODE_RIGHT :: int where "KEYCODE_RIGHT = 39"
definition KEYCODE_UP :: int where "KEYCODE_UP = 38"
definition KEYCODE_HOME :: int where "KEYCODE_HOME = 36"
definition KEYCODE_END :: int where "KEYCODE_END = 35"

text \<open>\<open>this\<close> is the container: the root of the tree.\<close>

definition this :: "dom \<Rightarrow> nat" where
  "this d = handle (tree d)"

definition allPanels :: "dom \<Rightarrow> nat list" where
  "allPanels d = filter (\<lambda>h. role (store d h) = Some ''tabpanel'') (descendants (tree d))"

definition allTabs :: "dom \<Rightarrow> nat list" where
  "allTabs d = filter (\<lambda>h. role (store d h) = Some ''tab'') (descendants (tree d))"

text \<open>
  \<open>_panelForTab\<close>: the first panel in document order whose \<open>id\<close> is strictly equal to the
  tab's \<open>aria-controls\<close>; \<open>undefined\<close> when there is none (a \<open>null\<close> attribute equals no id).
\<close>

definition panelForTab :: "dom \<Rightarrow> nat \<Rightarrow> nat option" where
  "panelForTab d tab =
     (let panelId = aria_controls (store d tab)
      in find (\<lambda>panel. Some (elem_id (store d panel)) = panelId) (allPanels d))"

definition isSelected :: "dom \<Rightarrow> nat \<Rightarrow> bool" where
  "isSelected d tab = (aria_selected (store d tab) = Some ''true'')"

definition prevTab :: "dom \<Rightarrow> nat option" where
  "prevTab d =
     (let tabs = allTabs d;
          newIdx = findIndex (isSelected d) tabs - 1
      in js_nth tabs (js_rem (newIdx + int (length tabs)) (int (length tabs))))"

definition nextTab :: "dom \<Rightarrow> nat option" where
  "nextTab d =
     (let tabs = allTabs d;
          newIdx = findIndex (isSelected d) tabs + 1
      in js_nth tabs (js_rem newIdx (int (length tabs))))"

definition deselect :: "elem \<Rightarrow> elem" where
  "deselect e = e\<lparr>tabIndex := - 1, aria_selected := Some ''false''\<rparr>"

definition hide :: "elem \<Rightarrow> elem" where
  "hide e = e\<lparr>aria_hidden := Some ''true''\<rparr>"

text \<open>\<open>xs.forEach(x => ...)\<close> where the body rewrites the attributes of \<open>x\<close>.\<close>

definition forEach :: "nat list \<Rightarrow> (elem \<Rightarrow> elem) \<Rightarrow> (nat \<Rightarrow> elem) \<Rightarrow> (nat \<Rightarrow> elem)" where
  "forEach xs f s = fold (\<lambda>h s'. s'(h := f (s' h))) xs s"

definition reset :: "dom \<Rightarrow> dom" where
  "reset d =
     (let tabs = allTabs d;
          panels = allPanels d
      in d\<lparr>store := forEach panels hide (forEach tabs deselect (store d))\<rparr>)"

text \<open>
  \<open>_selectTab\<close>. The reset comes first. When the panel is missing, the \<open>throw\<close> statement
  builds its message from \<open>newPanelId\<close>, a name that is declared nowhere (the page is taken
  to define no global of that name), so what is thrown is a ReferenceError. When \<open>newTab\<close>
  is \<open>undefined\<close>, \<open>_panelForTab\<close> fails on \<open>tab.getAttribute\<close> with a TypeError.
  \<open>newTab.focus()\<close> makes the tab, whose \<open>tabIndex\<close> is 0 by then, the active element.
\<close>

definition selectTab :: "dom \<Rightarrow> nat option \<Rightarrow> outcome" where
  "selectTab d newTab =
     (let d1 = reset d
      in case newTab of
           None \<Rightarrow> Inl (TypeError ''getAttribute'', d1)
         | Some tab \<Rightarrow>
             (case panelForTab d1 tab of
                None \<Rightarrow> Inl (ReferenceError ''newPanelId'', d1)
              | Some newPanel \<Rightarrow>
                  (let s2 = (store d1)(newPanel := (store d1 newPanel)\<lparr>aria_hidden := Some ''false''\<rparr>);
                       s3 = s2(tab := (s2 tab)\<lparr>aria_selected := Some ''true''\<rparr>);
                       s4 = s3(tab := (s3 tab)\<lparr>tabIndex := 0\<rparr>)
                   in Inr (d1\<lparr>store := s4, activeElement := Some tab\<rparr>))))"

text \<open>
  The labelling loop of \<open>connectedCallback\<close>. A tab with an id labels its panel; when that
  panel is missing, \<open>setAttribute\<close> is called on \<open>undefined\<close> (TypeError). For a tab without
  an id the warning's message is built from \<open>panelId\<close>, which is not in scope in
  \<open>connectedCallback\<close> (ReferenceError; the page is taken to define no global of that
  name). A throw ends the loop.
\<close>

fun labelPanels :: "dom \<Rightarrow> nat list \<Rightarrow> outcome" where
  "labelPanels d [] = Inr d"
| "labelPanels d (tab # tabs) =
     (if elem_id (store d tab) \<noteq> []
      then (case panelForTab d tab of
              None \<Rightarrow> Inl (TypeError ''setAttribute'', d)
            | Some panel \<Rightarrow>
                labelPanels
                  (d\<lparr>store := (store d)(panel :=
                       (store d panel)\<lparr>aria_labelledby := Some (elem_id (store d tab))\<rparr>)\<rparr>)
                  tabs)
      else Inl (ReferenceError ''panelId'', d))"

definition addEventListener :: "string \<Rightarrow> dom \<Rightarrow> dom" where
  "addEventListener type d = d\<lparr>listeners := List.insert type (listeners d)\<rparr>"

definition removeEventListener :: "string \<Rightarrow> dom \<Rightarrow> dom" where
  "removeEventListener type d = d\<lparr>listeners := removeAll type (listeners d)\<rparr>"

text \<open>
  The nodes that \<open>this.appendChild(c)\<close> takes out and puts back: \<open>c\<close> and everything below
  it. A focused node among them loses the focus, since it leaves the document for a moment.
\<close>

definition movedNodes :: "node \<Rightarrow> nat \<Rightarrow> nat list" where
  "movedNodes t c =
     (case firstSome (map (subtree c) (childNodes t)) of
        None \<Rightarrow> []
      | Some sub \<Rightarrow> preorder sub)"

definition moveChild :: "nat \<Rightarrow> dom \<Rightarrow> dom" where
  "moveChild c d =
     d\<lparr>tree := appendChild (tree d) c,
       activeElement :=
         (case activeElement d of
            None \<Rightarrow> None
          | Some f \<Rightarrow> if f \<in> set (movedNodes (tree d) c) then None else Some f)\<rparr>"

text \<open>\<open>xs.forEach(x => this.appendChild(x))\<close>.\<close>

definition moveToEnd :: "nat list \<Rightarrow> dom \<Rightarrow> dom" where
  "moveToEnd xs d = fold moveChild xs d"

definition connectedCallback :: "dom \<Rightarrow> outcome" where
  "connectedCallback d0 =
     (let d1 = addEventListener ''click'' (addEventListener ''keydown'' d0);
          d2 = d1\<lparr>store := (store d1)(this d1 := (store d1 (this d1))\<lparr>role := Some ''tablist''\<rparr>)\<rparr>;
          tabs = allTabs d2;
          panels = allPanels d2
      in if tabs = [] then Inr d2
         else (let d3 = moveToEnd panels (moveToEnd tabs d2)
               in case labelPanels d3 tabs of
                    Inl thrown \<Rightarrow> Inl thrown
                  | Inr d4 \<Rightarrow>
                      (let selectedTab =
                             (case find (isSelected d4) tabs of
                                Some tab \<Rightarrow> Some tab
                              | None \<Rightarrow> js_nth tabs (Some 0))
                       in selectTab d4 selectedTab)))"

definition disconnectedCallback :: "dom \<Rightarrow> dom" where
  "disconnectedCallback d =
     removeEventListener ''click'' (removeEventListener ''keydown'' d)"

text \<open>
  \<open>_onKeyDown\<close>: \<open>event.preventDefault()\<close> is the first statement. The result is the event
  as the handler leaves it and the outcome of the call.
\<close>

definition onKeyDown :: "dom \<Rightarrow> event \<Rightarrow> event \<times> outcome" where
  "onKeyDown d ev0 =
     (let ev = ev0\<lparr>defaultPrevented := True\<rparr>
      in if role (store d (target ev)) \<noteq> Some ''tab'' then (ev, Inr d)
         else if altKey ev then (ev, Inr d)
         else if keyCode ev = KEYCODE_LEFT \<or> keyCode ev = KEYCODE_UP
           then (ev, selectTab d (prevTab d))
         else if keyCode ev = KEYCODE_RIGHT \<or> keyCode ev = KEYCODE_DOWN
           then (ev, selectTab d (nextTab d))
         else if keyCode ev = KEYCODE_HOME
           then (ev, selectTab d (js_nth (allTabs d) (Some 0)))
         else if keyCode ev = KEYCODE_END
           then (let tabs = allTabs d
                 in (ev, selectTab d (js_nth tabs (Some (int (length tabs) - 1)))))
         else (ev, Inr d))"

text \<open>
  \<open>_onClick\<close>: the test is \<open>!event.target.getAttribute('role', 'tab')\<close>; \<open>getAttribute\<close>
  takes one argument, so the test is on the truthiness of the role.
\<close>

definition onClick :: "dom \<Rightarrow> event \<Rightarrow> outcome" where
  "onClick d ev =
     (if \<not> truthy (role (store d (target ev))) then Inr d
      else selectTab d (Some (target ev)))"

section \<open>Properties of a document\<close>

text \<open>
  Node identity: no handle occurs twice in the tree (the container included).
\<close>

definition wellFormed :: "dom \<Rightarrow> bool" where
  "wellFormed d = distinct (preorder (tree d))"

text \<open>
  The panels whose \<open>id\<close> equals a node's \<open>aria-controls\<close>, the tabs marked selected, the
  panels marked visible, and the positions of the selected tabs in the tab sequence.
\<close>

definition controllers :: "dom \<Rightarrow> nat \<Rightarrow> nat list" where
  "controllers d tab =
     filter (\<lambda>panel. Some (elem_id (store d panel)) = aria_controls (store d tab)) (allPanels d)"

definition selectedTabs :: "dom \<Rightarrow> nat list" where
  "selectedTabs d = filter (isSelected d) (allTabs d)"

definition visiblePanels :: "dom \<Rightarrow> nat list" where
  "visiblePanels d = filter (\<lambda>p. aria_hidden (store d p) = Some ''false'') (allPanels d)"

definition selectedIndices :: "dom \<Rightarrow> nat list" where
  "selectedIndices d = filter (\<lambda>i. isSelected d (allTabs d ! i)) [0..<length (allTabs d)]"

text \<open>
  Exactly one tab is selected, exactly one panel is visible, and the visible panel is the one
  the selected tab controls: its id is the tab's \<open>aria-controls\<close>, and it is the panel that
  \<open>_panelForTab\<close> resolves for that tab.
\<close>

definition exactlyOnePair :: "dom \<Rightarrow> bool" where
  "exactlyOnePair d =
     (case (selectedTabs d, visiblePanels d) of
        ([t], [p]) \<Rightarrow> aria_controls (store d t) = Some (elem_id (store d p)) \<and> panelForTab d t = Some p
      | _ \<Rightarrow> False)"

subsection \<open>Intermediate states of the methods\<close>

text \<open>
  The document after a successful \<open>_selectTab\<close>; after the first three statements of
  \<open>connectedCallback\<close>; after its two reordering loops; and the tab it then selects.
\<close>

definition selected :: "dom \<Rightarrow> nat \<Rightarrow> nat \<Rightarrow> dom" where
  "selected d tab newPanel =
     (let d1 = reset d;
          s2 = (store d1)(newPanel := (store d1 newPanel)\<lparr>aria_hidden := Some ''false''\<rparr>);
          s3 = s2(tab := (s2 tab)\<lparr>aria_selected := Some ''true''\<rparr>);
          s4 = s3(tab := (s3 tab)\<lparr>tabIndex := 0\<rparr>)
      in d1\<lparr>store := s4, activeElement := Some tab\<rparr>)"

definition prepared :: "dom \<Rightarrow> dom" where
  "prepared d0 =
     (let d1 = addEventListener ''click'' (addEventListener ''keydown'' d0)
      in d1\<lparr>store := (store d1)(this d1 := (store d1 (this d1))\<lparr>role := Some ''tablist''\<rparr>)\<rparr>)"

definition arranged :: "dom \<Rightarrow> dom" where
  "arranged d0 =
     (let d2 = prepared d0 in moveToEnd (allPanels d2) (moveToEnd (allTabs d2) d2))"

definition initialTab :: "dom \<Rightarrow> nat list \<Rightarrow> nat option" where
  "initialTab d tabs =
     (case find (isSelected d) tabs of Some tab \<Rightarrow> Some tab | None \<Rightarrow> js_nth tabs (Some 0))"

text \<open>
  What \<open>appendChild\<close> removes from among the children, and what it means for a node to have
  been taken out of a tree without loss.
\<close>

definition cut :: "nat \<Rightarrow> node list \<Rightarrow> node list" where
  "cut c ks = filter (\<lambda>k. handle k \<noteq> c) (map (prune c) ks)"

definition moved :: "nat \<Rightarrow> node \<Rightarrow> bool" where
  "moved c t \<longleftrightarrow>
     (\<exists>sub. subtree c t = Some sub \<and>
        (if handle t = c then sub = t
         else mset (preorder (prune c t)) + mset (preorder sub) = mset (preorder t)))"

text \<open>Two documents that differ in \<open>aria-labelledby\<close> values only.\<close>

definition unlabelled :: "elem \<Rightarrow> elem" where
  "unlabelled e = e\<lparr>aria_labelledby := None\<rparr>"

definition relabelled :: "dom \<Rightarrow> dom \<Rightarrow> bool" where
  "relabelled d d' \<longleftrightarrow>
     tree d' = tree d \<and> activeElement d' = activeElement d \<and> listeners d' = listeners d \<and>
     (\<forall>h. unlabelled (store d' h) = unlabelled (store d h))"

subsection \<open>Example documents and events\<close>

text \<open>
  Three tabs \<open>t1\<close>, \<open>t2\<close>, \<open>t3\<close> (handles 11, 12, 13) and their panels \<open>p1\<close>, \<open>p2\<close>,
  \<open>p3\<close> (handles 21, 22, 23), interleaved as the markup is written for progressive
  enhancement; the second pair sits inside a wrapper element (handle 30). The container is
  handle 0.
\<close>

definition blank :: elem where
  "blank = \<lparr>role = None, elem_id = [], aria_controls = None, aria_selected = None,
            aria_hidden = None, aria_labelledby = None, tabIndex = - 1\<rparr>"

definition tabElem :: "string \<Rightarrow> string \<Rightarrow> elem" where
  "tabElem i c = blank\<lparr>role := Some ''tab'', elem_id := i, aria_controls := Some c\<rparr>"

definition panelElem :: "string \<Rightarrow> elem" where
  "panelElem i = blank\<lparr>role := Some ''tabpanel'', elem_id := i\<rparr>"

definition markupA :: dom where
  "markupA =
     \<lparr>tree = Node 0 [Node 11 [], Node 21 [], Node 30 [Node 12 [], Node 22 []],
                     Node 13 [], Node 23 []],
      store = (\<lambda>_. blank)
        (11 := tabElem ''t1'' ''p1'', 21 := panelElem ''p1'',
         12 := tabElem ''t2'' ''p2'', 22 := panelElem ''p2'',
         13 := tabElem ''t3'' ''p3'', 23 := panelElem ''p3''),
      activeElement = None,
      listeners = []\<rparr>"

text \<open>The same document with the first tab selected, and with the last tab selected.\<close>

definition stateA :: dom where
  "stateA = markupA\<lparr>store := (store markupA)
     (11 := (tabElem ''t1'' ''p1'')\<lparr>aria_selected := Some ''true'', tabIndex := 0\<rparr>,
      21 := (panelElem ''p1'')\<lparr>aria_hidden := Some ''false''\<rparr>,
      12 := deselect (tabElem ''t2'' ''p2''), 22 := hide (panelElem ''p2''),
      13 := deselect (tabElem ''t3'' ''p3''), 23 := hide (panelElem ''p3'')),
     activeElement := Some 11\<rparr>"

definition stateLast :: dom where
  "stateLast = markupA\<lparr>store := (store markupA)
     (13 := (tabElem ''t3'' ''p3'')\<lparr>aria_selected := Some ''true'', tabIndex := 0\<rparr>,
      23 := (panelElem ''p3'')\<lparr>aria_hidden := Some ''false''\<rparr>)\<rparr>"

text \<open>The markup with the second and third tab both marked selected by the author.\<close>

definition markupB :: dom where
  "markupB = markupA\<lparr>store := (store markupA)
     (12 := (tabElem ''t2'' ''p2'')\<lparr>aria_selected := Some ''true''\<rparr>,
      13 := (tabElem ''t3'' ''p3'')\<lparr>aria_selected := Some ''true''\<rparr>)\<rparr>"

text \<open>
  The second tab controlling an id that no panel has; the second tab without an id; a
  container with a panel and no tab; a tab with two panels of the same id, in both orders;
  and the first markup with its first and last panel exchanged.
\<close>

definition stateF :: dom where
  "stateF = stateA\<lparr>store := (store stateA)(12 := (store stateA 12)\<lparr>aria_controls := Some ''missing-id''\<rparr>)\<rparr>"

definition markupNoId :: dom where
  "markupNoId = markupA\<lparr>store := (store markupA)(12 := (store markupA 12)\<lparr>elem_id := []\<rparr>)\<rparr>"

definition hollow :: dom where
  "hollow =
     \<lparr>tree = Node 0 [Node 21 []],
      store = (\<lambda>_. blank)(21 := panelElem ''p1''),
      activeElement = None,
      listeners = []\<rparr>"

definition twins :: dom where
  "twins =
     \<lparr>tree = Node 0 [Node 11 [], Node 21 [], Node 22 []],
      store = (\<lambda>_. blank)(11 := tabElem ''t1'' ''p1'', 21 := panelElem ''p1'', 22 := panelElem ''p1''),
      activeElement = None,
      listeners = []\<rparr>"

definition twinsSwapped :: dom where
  "twinsSwapped = twins\<lparr>tree := Node 0 [Node 11 [], Node 22 [], Node 21 []]\<rparr>"

definition markupA_swapped :: dom where
  "markupA_swapped =
     markupA\<lparr>tree := Node 0 [Node 11 [], Node 23 [], Node 30 [Node 12 [], Node 22 []],
                            Node 13 [], Node 21 []]\<rparr>"

definition click :: "nat \<Rightarrow> event" where
  "click h = \<lparr>target = h, keyCode = 0, altKey = False, defaultPrevented = False\<rparr>"

definition keydown :: "nat \<Rightarrow> int \<Rightarrow> event" where
  "keydown h k = \<lparr>target = h, keyCode = k, altKey = False, defaultPrevented = False\<rparr>"

section \<open>Reset and selection\<close>

lemma forEach_apply:
  assumes "\<And>e. f (f e) = f e"
  shows "forEach xs f s h = (if h \<in> set xs then f (s h) else s h)"
  unfolding forEach_def
proof (induction xs arbitrary: s)
  case Nil
  then show ?case by simp
next
  case (Cons x xs)
  then show ?case using assms by simp
qed

lemma deselect_idem: "deselect (deselect e) = deselect e"
  by (simp add: deselect_def)

lemma hide_idem: "hide (hide e) = hide e"
  by (simp add: hide_def)

lemma store_reset:
  "store (reset d) h =
     (if h \<in> set (allPanels d) then hide (store d h)
      else if h \<in> set (allTabs d) then deselect (store d h) else store d h)"
  by (simp add: reset_def Let_def forEach_apply hide_idem deselect_idem allPanels_def allTabs_def)

lemma tree_reset: "tree (reset d) = tree d"
  by (simp add: reset_def Let_def)

lemma role_reset: "role (store (reset d) h) = role (store d h)"
  by (simp add: store_reset hide_def deselect_def)

lemma allTabs_reset: "allTabs (reset d) = allTabs d"
  by (simp add: allTabs_def tree_reset role_reset)

lemma allPanels_reset: "allPanels (reset d) = allPanels d"
  by (simp add: allPanels_def tree_reset role_reset)

lemma panelForTab_reset: "panelForTab (reset d) t = panelForTab d t"
  by (simp add: panelForTab_def allPanels_reset store_reset hide_def deselect_def)

lemma findIndex_first:
  "i < length xs \<Longrightarrow> P (xs ! i) \<Longrightarrow> (\<forall>j<i. \<not> P (xs ! j)) \<Longrightarrow> findIndex P xs = int i"
proof (induction xs arbitrary: i)
  case Nil then show ?case by simp
next
  case (Cons x xs)
  show ?case
  proof (cases i)
    case 0 with Cons.prems show ?thesis by simp
  next
    case (Suc k)
    with Cons.prems have "\<not> P x" by auto
    moreover have "findIndex P xs = int k"
      using Cons.prems Suc by (intro Cons.IH) auto
    ultimately show ?thesis using Suc by (simp add: Let_def)
  qed
qed

lemma findIndex_range: "- 1 \<le> findIndex P xs \<and> findIndex P xs < int (length xs)"
  by (induction xs) (auto simp: Let_def)

lemma selectTab_Some:
  "panelForTab d t = Some p \<Longrightarrow> selectTab d (Some t) = Inr (selected d t p)"
  by (simp add: selectTab_def selected_def Let_def panelForTab_reset)

lemma selectTab_missing:
  "panelForTab d t = None \<Longrightarrow> selectTab d (Some t) = Inl (ReferenceError ''newPanelId'', reset d)"
  by (simp add: selectTab_def Let_def panelForTab_reset)

lemma tree_selected: "tree (selected d t p) = tree d"
  by (simp add: selected_def Let_def tree_reset)

lemma role_selected: "role (store (selected d t p) h) = role (store d h)"
  by (simp add: selected_def Let_def role_reset)

lemma id_selected: "elem_id (store (selected d t p) h) = elem_id (store d h)"
  by (simp add: selected_def Let_def store_reset hide_def deselect_def)

lemma controls_selected: "aria_controls (store (selected d t p) h) = aria_controls (store d h)"
  by (simp add: selected_def Let_def store_reset hide_def deselect_def)

lemma allTabs_selected: "allTabs (selected d t p) = allTabs d"
  by (simp add: allTabs_def tree_selected role_selected)

lemma allPanels_selected: "allPanels (selected d t p) = allPanels d"
  by (simp add: allPanels_def tree_selected role_selected)

lemma panelForTab_selected: "panelForTab (selected d t p) x = panelForTab d x"
  by (simp add: panelForTab_def allPanels_selected id_selected controls_selected)

lemma tab_not_panel: "t \<in> set (allTabs d) \<Longrightarrow> p \<in> set (allPanels d) \<Longrightarrow> t \<noteq> p"
  by (auto simp: allTabs_def allPanels_def)

lemma isSelected_selected:
  "h \<in> set (allTabs d) \<Longrightarrow> isSelected (selected d t p) h = (h = t)"
  by (auto simp: isSelected_def selected_def Let_def store_reset hide_def deselect_def
        dest: tab_not_panel)

lemma visible_selected:
  "h \<in> set (allPanels d) \<Longrightarrow> t \<in> set (allTabs d) \<Longrightarrow>
   (aria_hidden (store (selected d t p) h) = Some ''false'') = (h = p)"
  by (auto simp: selected_def Let_def store_reset hide_def deselect_def dest: tab_not_panel)

lemma filter_single:
  "distinct xs \<Longrightarrow> t \<in> set xs \<Longrightarrow> (\<And>h. h \<in> set xs \<Longrightarrow> P h = (h = t)) \<Longrightarrow> filter P xs = [t]"
proof (induction xs)
  case Nil then show ?case by simp
next
  case (Cons x xs)
  show ?case
  proof (cases "x = t")
    case True
    with Cons.prems have "filter P xs = []" by (auto simp: filter_empty_conv)
    with True Cons.prems show ?thesis by simp
  next
    case False
    with Cons show ?thesis by auto
  qed
qed

lemma distinct_allTabs: "distinct (descendants (tree d)) \<Longrightarrow> distinct (allTabs d)"
  by (simp add: allTabs_def)

lemma distinct_allPanels: "distinct (descendants (tree d)) \<Longrightarrow> distinct (allPanels d)"
  by (simp add: allPanels_def)

lemma panelForTab_in: "panelForTab d t = Some p \<Longrightarrow> p \<in> set (allPanels d) \<and> aria_controls (store d t) = Some (elem_id (store d p))"
  by (auto simp: panelForTab_def Let_def find_Some_iff)

lemma find_filter_hd:
  "find P xs = (case filter P xs of [] \<Rightarrow> None | x # _ \<Rightarrow> Some x)"
  by (induction xs) simp_all

lemma panelForTab_controllers:
  "panelForTab d t = (case controllers d t of [] \<Rightarrow> None | p # _ \<Rightarrow> Some p)"
  by (simp add: panelForTab_def controllers_def Let_def find_filter_hd)

lemma controllers_empty: "controllers d t = [] \<longleftrightarrow> panelForTab d t = None"
  by (simp add: panelForTab_controllers split: list.splits)

lemma selected_pair:
  assumes dist: "distinct (descendants (tree d))"
    and t: "t \<in> set (allTabs d)"
    and p: "panelForTab d t = Some p"
  shows "selectedTabs (selected d t p) = [t]"
    and "visiblePanels (selected d t p) = [p]"
    and "exactlyOnePair (selected d t p)"
proof -
  from p have pin: "p \<in> set (allPanels d)" and ctl: "aria_controls (store d t) = Some (elem_id (store d p))"
    by (simp_all add: panelForTab_in)
  show st: "selectedTabs (selected d t p) = [t]"
    unfolding selectedTabs_def allTabs_selected
    by (rule filter_single) (simp_all add: distinct_allTabs dist t isSelected_selected)
  show vp: "visiblePanels (selected d t p) = [p]"
    unfolding visiblePanels_def allPanels_selected
    by (rule filter_single) (simp_all add: distinct_allPanels dist pin visible_selected t)
  show "exactlyOnePair (selected d t p)"
    by (simp add: exactlyOnePair_def st vp controls_selected id_selected ctl panelForTab_selected p)
qed

section \<open>Previous and next tab\<close>

lemma js_nth_in: "0 \<le> i \<Longrightarrow> i < int (length xs) \<Longrightarrow> js_nth xs (Some i) = Some (xs ! nat i) \<and> xs ! nat i \<in> set xs"
  by simp

lemma js_rem_range:
  assumes "0 < n" and "0 \<le> a \<or> n = 1"
  shows "\<exists>r. js_rem a n = Some r \<and> 0 \<le> r \<and> r < n"
proof (cases "n = 1")
  case True
  then show ?thesis by (simp add: js_rem_def)
next
  case False
  with assms show ?thesis by (simp add: js_rem_def sgn_if)
qed

lemma js_rem_small:
  assumes "0 \<le> a" and "a < b"
  shows "js_rem a b = Some a"
proof -
  have "a mod b = a" using assms by (rule mod_pos_pos_trivial)
  moreover have "\<bar>a\<bar> = a" "\<bar>b\<bar> = b" "b \<noteq> 0" using assms by linarith+
  moreover have "sgn a * a = a" using assms(1) by (cases "a = 0") (simp_all add: sgn_if)
  ultimately show ?thesis by (simp add: js_rem_def)
qed

lemma prevTab_in:
  assumes "allTabs d \<noteq> []"
  shows "\<exists>t. prevTab d = Some t \<and> t \<in> set (allTabs d)"
proof -
  let ?n = "int (length (allTabs d))"
  let ?a = "findIndex (isSelected d) (allTabs d) - 1 + ?n"
  from assms have n: "0 < ?n" by simp
  have "- 1 \<le> findIndex (isSelected d) (allTabs d)" by (simp add: findIndex_range)
  with n have "0 \<le> ?a \<or> ?n = 1" by linarith
  from js_rem_range [OF n this] obtain r where r: "js_rem ?a ?n = Some r" "0 \<le> r" "r < ?n"
    by blast
  then show ?thesis by (simp add: prevTab_def Let_def)
qed

lemma nextTab_in:
  assumes "allTabs d \<noteq> []"
  shows "\<exists>t. nextTab d = Some t \<and> t \<in> set (allTabs d)"
proof -
  let ?n = "int (length (allTabs d))"
  let ?a = "findIndex (isSelected d) (allTabs d) + 1"
  from assms have n: "0 < ?n" by simp
  have "- 1 \<le> findIndex (isSelected d) (allTabs d)" by (simp add: findIndex_range)
  then have "0 \<le> ?a \<or> ?n = 1" by linarith
  from js_rem_range [OF n this] obtain r where r: "js_rem ?a ?n = Some r" "0 \<le> r" "r < ?n"
    by blast
  then show ?thesis by (simp add: nextTab_def Let_def)
qed

lemma firstTab_in:
  "allTabs d \<noteq> [] \<Longrightarrow> \<exists>t. js_nth (allTabs d) (Some 0) = Some t \<and> t \<in> set (allTabs d)"
  by simp

lemma lastTab_in:
  assumes "allTabs d \<noteq> []"
  shows "\<exists>t. js_nth (allTabs d) (Some (int (length (allTabs d)) - 1)) = Some t \<and> t \<in> set (allTabs d)"
proof -
  from assms have n: "0 < length (allTabs d)" by simp
  then have "0 \<le> int (length (allTabs d)) - 1" "int (length (allTabs d)) - 1 < int (length (allTabs d))"
    by linarith+
  from js_nth_in [OF this] show ?thesis by blast
qed

lemma selectedIndices_findIndex:
  assumes "selectedIndices d = [i]"
  shows "i < length (allTabs d) \<and> findIndex (isSelected d) (allTabs d) = int i"
proof -
  let ?P = "\<lambda>j. isSelected d (allTabs d ! j)"
  have mem: "\<And>j. j \<in> set (filter ?P [0..<length (allTabs d)]) \<longleftrightarrow> j = i"
    using assms by (simp only: selectedIndices_def) simp
  have i: "i < length (allTabs d)" and Pi: "?P i"
    using mem [of i] by auto
  have "\<forall>j<i. \<not> ?P j"
  proof (intro allI impI)
    fix j assume "j < i"
    with i mem [of j] show "\<not> ?P j" by auto
  qed
  with i Pi show ?thesis by (simp add: findIndex_first)
qed

lemma prevTab_wrap:
  assumes "selectedIndices d = [0]"
  shows "prevTab d = Some (allTabs d ! (length (allTabs d) - 1))"
proof -
  let ?n = "int (length (allTabs d))"
  from selectedIndices_findIndex [OF assms]
  have n: "0 < length (allTabs d)" and fi: "findIndex (isSelected d) (allTabs d) = 0" by simp_all
  from n have bounds: "0 \<le> ?n - 1" "?n - 1 < ?n" by linarith+
  then have "js_rem (?n - 1) ?n = Some (?n - 1)" by (rule js_rem_small)
  moreover have "findIndex (isSelected d) (allTabs d) - 1 + ?n = ?n - 1" using fi by simp
  moreover have "nat (?n - 1) = length (allTabs d) - 1" by simp
  moreover note js_nth_in [OF bounds]
  ultimately show ?thesis unfolding prevTab_def Let_def by simp
qed

lemma nextTab_wrap:
  assumes "selectedIndices d = [length (allTabs d) - 1]"
  shows "nextTab d = Some (allTabs d ! 0)"
proof -
  let ?n = "int (length (allTabs d))"
  from selectedIndices_findIndex [OF assms]
  have lt: "length (allTabs d) - 1 < length (allTabs d)"
    and fi: "findIndex (isSelected d) (allTabs d) = int (length (allTabs d) - 1)" by blast+
  from lt have n: "0 < length (allTabs d)" by linarith
  from n have "findIndex (isSelected d) (allTabs d) + 1 = ?n"
    unfolding fi by linarith
  moreover have "js_rem ?n ?n = Some 0"
    using n by (simp add: js_rem_def)
  moreover have "js_nth (allTabs d) (Some 0) = Some (allTabs d ! 0)" using n by simp
  ultimately show ?thesis unfolding nextTab_def Let_def by simp
qed

section \<open>Moving a node keeps the nodes\<close>

lemma handle_in_preorder: "handle t \<in> set (preorder t)"
  by (cases t) simp

lemma handle_prune: "handle (prune c t) = handle t"
  by (cases t) simp

lemma prune_absent: "c \<notin> set (preorder t) \<Longrightarrow> prune c t = t"
proof (induction t)
  case (Node i ks)
  have "map (prune c) ks = ks"
    using Node by (intro map_idI) auto
  moreover have "filter (\<lambda>k. handle k \<noteq> c) ks = ks"
  proof (rule filter_True, rule ballI)
    fix k assume "k \<in> set ks"
    with Node.prems handle_in_preorder [of k] show "handle k \<noteq> c" by auto
  qed
  ultimately show ?case by simp
qed

lemma subtree_absent: "c \<notin> set (preorder t) \<Longrightarrow> subtree c t = None"
proof (induction t)
  case (Node i ks)
  have "\<And>k. k \<in> set ks \<Longrightarrow> subtree c k = None"
    using Node by auto
  then have "firstSome (map (subtree c) ks) = None"
    by (induction ks) auto
  with Node.prems show ?case by simp
qed

lemma cut_absent:
  assumes "c \<notin> set (concat (map preorder ks))"
  shows "cut c ks = ks" and "firstSome (map (subtree c) ks) = None"
proof -
  have each: "\<And>k. k \<in> set ks \<Longrightarrow> c \<notin> set (preorder k)" using assms by auto
  then have "map (prune c) ks = ks" by (intro map_idI) (simp add: prune_absent)
  moreover have "filter (\<lambda>k. handle k \<noteq> c) ks = ks"
  proof (rule filter_True, rule ballI)
    fix k assume "k \<in> set ks"
    with each handle_in_preorder [of k] show "handle k \<noteq> c" by auto
  qed
  ultimately show "cut c ks = ks" by (simp add: cut_def)
  from each have "\<And>k. k \<in> set ks \<Longrightarrow> subtree c k = None" by (simp add: subtree_absent)
  then show "firstSome (map (subtree c) ks) = None" by (induction ks) auto
qed

lemma forest_moved:
  assumes each: "\<And>k. k \<in> set ks \<Longrightarrow> distinct (preorder k) \<Longrightarrow> c \<in> set (preorder k) \<Longrightarrow> moved c k"
    and "distinct (concat (map preorder ks))"
    and "c \<in> set (concat (map preorder ks))"
  shows "\<exists>sub. firstSome (map (subtree c) ks) = Some sub \<and>
           mset (concat (map preorder (cut c ks))) + mset (preorder sub)
             = mset (concat (map preorder ks))"
  using assms
proof (induction ks)
  case Nil
  then show ?case by simp
next
  case (Cons k ks)
  from Cons.prems(2) have dk: "distinct (preorder k)" and dks: "distinct (concat (map preorder ks))"
    and disj: "set (preorder k) \<inter> set (concat (map preorder ks)) = {}"
    by simp_all
  show ?case
  proof (cases "c \<in> set (preorder k)")
    case True
    with disj have "c \<notin> set (concat (map preorder ks))" by auto
    then have rest: "cut c ks = ks" by (rule cut_absent)
    from Cons.prems(1) [of k] dk True have mv: "moved c k" by simp
    then obtain sub where sub: "subtree c k = Some sub"
      and eq: "if handle k = c then sub = k
               else mset (preorder (prune c k)) + mset (preorder sub) = mset (preorder k)"
      unfolding moved_def by blast
    show ?thesis
    proof (cases "handle k = c")
      case True
      with eq have "sub = k" by simp
      moreover have "cut c (k # ks) = ks"
        using True rest by (simp add: cut_def handle_prune)
      ultimately show ?thesis using sub by simp
    next
      case False
      with eq have "mset (preorder (prune c k)) + mset (preorder sub) = mset (preorder k)" by simp
      moreover have "cut c (k # ks) = prune c k # ks"
        using False rest by (simp add: cut_def handle_prune)
      ultimately show ?thesis using sub by (simp add: union_ac)
    qed
  next
    case False
    then have "subtree c k = None" "prune c k = k" "handle k \<noteq> c"
      using handle_in_preorder [of k] by (auto simp: subtree_absent prune_absent)
    moreover from False Cons.prems(3) have "c \<in> set (concat (map preorder ks))" by simp
    with Cons.IH Cons.prems(1) dks
    obtain sub where "firstSome (map (subtree c) ks) = Some sub"
      "mset (concat (map preorder (cut c ks))) + mset (preorder sub) = mset (concat (map preorder ks))"
      by auto
    ultimately show ?thesis by (simp add: cut_def)
  qed
qed

lemma tree_moved: "distinct (preorder t) \<Longrightarrow> c \<in> set (preorder t) \<Longrightarrow> moved c t"
proof (induction t)
  case (Node i ks)
  show ?case
  proof (cases "i = c")
    case True
    then show ?thesis by (simp add: moved_def)
  next
    case False
    from Node.prems have d: "distinct (concat (map preorder ks))" by simp
    from Node.prems False have c: "c \<in> set (concat (map preorder ks))" by simp
    from forest_moved [OF Node.IH d c] obtain sub
      where "firstSome (map (subtree c) ks) = Some sub"
        "mset (concat (map preorder (cut c ks))) + mset (preorder sub) = mset (concat (map preorder ks))"
      by blast
    with False show ?thesis by (simp add: moved_def cut_def)
  qed
qed

lemma handle_appendChild: "handle (appendChild t c) = handle t"
  by (cases t) (simp split: option.splits)

lemma mset_appendChild:
  assumes "distinct (preorder t)"
  shows "mset (preorder (appendChild t c)) = mset (preorder t)"
proof (cases t)
  case (Node r ks)
  from assms Node have d: "distinct (concat (map preorder ks))" by simp
  show ?thesis
  proof (cases "c \<in> set (concat (map preorder ks))")
    case True
    from forest_moved [OF tree_moved d True] obtain sub
      where "firstSome (map (subtree c) ks) = Some sub"
        "mset (concat (map preorder (cut c ks))) + mset (preorder sub) = mset (concat (map preorder ks))"
      by blast
    then show ?thesis using Node by (simp add: cut_def)
  next
    case False
    then show ?thesis using Node by (simp add: cut_absent)
  qed
qed

lemma preorder_descendants: "preorder t = handle t # descendants t"
  by (cases t) (simp add: descendants_def)

lemma appendChild_keeps:
  assumes "distinct (preorder t)"
  shows "distinct (preorder (appendChild t c))"
    and "set (descendants (appendChild t c)) = set (descendants t)"
    and "handle (appendChild t c) = handle t"
proof -
  have m: "mset (preorder (appendChild t c)) = mset (preorder t)"
    using assms by (rule mset_appendChild)
  show "distinct (preorder (appendChild t c))"
    using mset_eq_imp_distinct_iff [OF m] assms by simp
  show h: "handle (appendChild t c) = handle t" by (rule handle_appendChild)
  from m have "mset (descendants (appendChild t c)) = mset (descendants t)"
    by (simp add: preorder_descendants h)
  then show "set (descendants (appendChild t c)) = set (descendants t)"
    by (rule mset_eq_setD)
qed

lemma fold_appendChild_keeps:
  assumes "distinct (preorder t)"
  shows "distinct (preorder (fold (\<lambda>c t. appendChild t c) xs t))
       \<and> set (descendants (fold (\<lambda>c t. appendChild t c) xs t)) = set (descendants t)
       \<and> handle (fold (\<lambda>c t. appendChild t c) xs t) = handle t"
  using assms
proof (induction xs arbitrary: t)
  case Nil
  then show ?case by simp
next
  case (Cons x xs)
  from appendChild_keeps [OF Cons.prems, of x] Cons.IH [of "appendChild t x"]
  show ?case by simp
qed

section \<open>Attaching the element\<close>

lemma connectedCallback_unfold:
  "connectedCallback d0 =
     (if allTabs (prepared d0) = [] then Inr (prepared d0)
      else case labelPanels (arranged d0) (allTabs (prepared d0)) of
             Inl thrown \<Rightarrow> Inl thrown
           | Inr d4 \<Rightarrow> selectTab d4 (initialTab d4 (allTabs (prepared d0))))"
  by (simp only: connectedCallback_def prepared_def arranged_def initialTab_def Let_def)

lemma tree_prepared: "tree (prepared d) = tree d"
  by (simp add: prepared_def addEventListener_def Let_def)

lemma store_prepared:
  "store (prepared d) h =
     (if h = handle (tree d) then (store d h)\<lparr>role := Some ''tablist''\<rparr> else store d h)"
  by (simp add: prepared_def addEventListener_def Let_def this_def)

lemma store_prepared_desc:
  "wellFormed d \<Longrightarrow> h \<in> set (descendants (tree d)) \<Longrightarrow> store (prepared d) h = store d h"
  by (auto simp: store_prepared wellFormed_def preorder_descendants)

lemma allTabs_prepared: "wellFormed d \<Longrightarrow> allTabs (prepared d) = allTabs d"
  unfolding allTabs_def tree_prepared
  by (rule filter_cong) (simp_all add: store_prepared_desc)

lemma allPanels_prepared: "wellFormed d \<Longrightarrow> allPanels (prepared d) = allPanels d"
  unfolding allPanels_def tree_prepared
  by (rule filter_cong) (simp_all add: store_prepared_desc)

lemma store_moveToEnd: "store (moveToEnd xs d) = store d"
  unfolding moveToEnd_def by (induction xs arbitrary: d) (simp_all add: moveChild_def)

lemma tree_moveToEnd: "tree (moveToEnd xs d) = fold (\<lambda>c t. appendChild t c) xs (tree d)"
  unfolding moveToEnd_def by (induction xs arbitrary: d) (simp_all add: moveChild_def)

lemma listeners_moveToEnd: "listeners (moveToEnd xs d) = listeners d"
  unfolding moveToEnd_def by (induction xs arbitrary: d) (simp_all add: moveChild_def)

lemma moveToEnd_keeps:
  assumes "wellFormed d"
  shows "wellFormed (moveToEnd xs d)"
    and "set (descendants (tree (moveToEnd xs d))) = set (descendants (tree d))"
    and "handle (tree (moveToEnd xs d)) = handle (tree d)"
  using fold_appendChild_keeps [of "tree d" xs] assms
  by (simp_all add: wellFormed_def tree_moveToEnd)

lemma store_arranged: "store (arranged d) = store (prepared d)"
  by (simp add: arranged_def Let_def store_moveToEnd)

lemma arranged_keeps:
  assumes "wellFormed d"
  shows "wellFormed (arranged d)"
    and "set (descendants (tree (arranged d))) = set (descendants (tree d))"
proof -
  have wp: "wellFormed (prepared d)" using assms by (simp add: wellFormed_def tree_prepared)
  let ?m = "moveToEnd (allTabs (prepared d)) (prepared d)"
  have w1: "wellFormed ?m" using wp by (rule moveToEnd_keeps)
  then show "wellFormed (arranged d)" unfolding arranged_def Let_def by (rule moveToEnd_keeps)
  show "set (descendants (tree (arranged d))) = set (descendants (tree d))"
    unfolding arranged_def Let_def
    by (simp add: moveToEnd_keeps(2) [OF w1] moveToEnd_keeps(2) [OF wp] tree_prepared)
qed

lemma set_allTabs_arranged: "wellFormed d \<Longrightarrow> set (allTabs (arranged d)) = set (allTabs d)"
  by (auto simp: allTabs_def arranged_keeps store_arranged store_prepared_desc)

lemma set_allPanels_arranged: "wellFormed d \<Longrightarrow> set (allPanels (arranged d)) = set (allPanels d)"
  by (auto simp: allPanels_def arranged_keeps store_arranged store_prepared_desc)

lemma panelForTab_exists:
  "panelForTab d t \<noteq> None \<longleftrightarrow>
     (\<exists>p \<in> set (allPanels d). Some (elem_id (store d p)) = aria_controls (store d t))"
  by (auto simp: panelForTab_def Let_def find_None_iff)

lemma relabelled_refl: "relabelled d d"
  by (simp add: relabelled_def)

lemma relabelled_trans: "relabelled a b \<Longrightarrow> relabelled b c \<Longrightarrow> relabelled a c"
  by (simp add: relabelled_def)

lemma relabelled_fields:
  assumes "relabelled d d'"
  shows "role (store d' h) = role (store d h)"
    and "elem_id (store d' h) = elem_id (store d h)"
    and "aria_controls (store d' h) = aria_controls (store d h)"
    and "aria_selected (store d' h) = aria_selected (store d h)"
    and "aria_hidden (store d' h) = aria_hidden (store d h)"
    and "tabIndex (store d' h) = tabIndex (store d h)"
proof -
  from assms have "unlabelled (store d' h) = unlabelled (store d h)" by (simp add: relabelled_def)
  then have e: "\<And>f. f (unlabelled (store d' h)) = f (unlabelled (store d h))" by simp
  show "role (store d' h) = role (store d h)" using e [of role] by (simp add: unlabelled_def)
  show "elem_id (store d' h) = elem_id (store d h)" using e [of elem_id] by (simp add: unlabelled_def)
  show "aria_controls (store d' h) = aria_controls (store d h)"
    using e [of aria_controls] by (simp add: unlabelled_def)
  show "aria_selected (store d' h) = aria_selected (store d h)"
    using e [of aria_selected] by (simp add: unlabelled_def)
  show "aria_hidden (store d' h) = aria_hidden (store d h)"
    using e [of aria_hidden] by (simp add: unlabelled_def)
  show "tabIndex (store d' h) = tabIndex (store d h)"
    using e [of tabIndex] by (simp add: unlabelled_def)
qed

lemma relabelled_queries:
  assumes "relabelled d d'"
  shows "allTabs d' = allTabs d" and "allPanels d' = allPanels d"
    and "panelForTab d' t = panelForTab d t" and "isSelected d' = isSelected d"
proof -
  from assms have tr: "tree d' = tree d" by (simp add: relabelled_def)
  show "allTabs d' = allTabs d" by (simp add: allTabs_def tr relabelled_fields [OF assms])
  show p: "allPanels d' = allPanels d" by (simp add: allPanels_def tr relabelled_fields [OF assms])
  show "panelForTab d' t = panelForTab d t"
    by (simp add: panelForTab_def p relabelled_fields [OF assms])
  show "isSelected d' = isSelected d"
    by (rule ext) (simp add: isSelected_def relabelled_fields [OF assms])
qed

lemma relabelled_step:
  "relabelled d (d\<lparr>store := (store d)(p := (store d p)\<lparr>aria_labelledby := x\<rparr>)\<rparr>)"
  by (simp add: relabelled_def unlabelled_def)

lemma labelPanels_relabelled: "labelPanels d tabs = Inr d' \<Longrightarrow> relabelled d d'"
proof (induction tabs arbitrary: d)
  case Nil
  then show ?case by (simp add: relabelled_refl)
next
  case (Cons t tabs)
  from Cons.prems obtain p where idt: "elem_id (store d t) \<noteq> []" and p: "panelForTab d t = Some p"
    and rest: "labelPanels
                 (d\<lparr>store := (store d)(p := (store d p)\<lparr>aria_labelledby := Some (elem_id (store d t))\<rparr>)\<rparr>)
                 tabs = Inr d'"
    by (auto split: if_splits option.splits)
  from Cons.IH [OF rest] relabelled_step show ?case by (rule relabelled_trans [rotated])
qed

lemma labelPanels_returns:
  "(\<forall>t \<in> set tabs. elem_id (store d t) \<noteq> [] \<and> panelForTab d t \<noteq> None) \<Longrightarrow>
   \<exists>d'. labelPanels d tabs = Inr d'"
proof (induction tabs arbitrary: d)
  case Nil
  then show ?case by simp
next
  case (Cons t tabs)
  then obtain p where idt: "elem_id (store d t) \<noteq> []" and p: "panelForTab d t = Some p" by auto
  let ?d = "d\<lparr>store := (store d)(p := (store d p)\<lparr>aria_labelledby := Some (elem_id (store d t))\<rparr>)\<rparr>"
  have r: "relabelled d ?d" by (rule relabelled_step)
  have same: "\<And>x. elem_id (store ?d x) = elem_id (store d x)"
    "\<And>x. panelForTab ?d x = panelForTab d x"
    by (rule relabelled_fields [OF r], rule relabelled_queries [OF r])
  from Cons.prems have "\<forall>t \<in> set tabs. elem_id (store d t) \<noteq> [] \<and> panelForTab d t \<noteq> None"
    by simp
  then have "\<forall>t \<in> set tabs. elem_id (store ?d t) \<noteq> [] \<and> panelForTab ?d t \<noteq> None"
    unfolding same .
  from Cons.IH [OF this] idt p show ?case by simp
qed

lemma labelPanels_needs:
  "labelPanels d tabs = Inr d' \<Longrightarrow>
   \<forall>t \<in> set tabs. elem_id (store d t) \<noteq> [] \<and> panelForTab d t \<noteq> None"
proof (induction tabs arbitrary: d)
  case Nil
  then show ?case by simp
next
  case (Cons t tabs)
  from Cons.prems obtain p where idt: "elem_id (store d t) \<noteq> []" and p: "panelForTab d t = Some p"
    and rest: "labelPanels
                 (d\<lparr>store := (store d)(p := (store d p)\<lparr>aria_labelledby := Some (elem_id (store d t))\<rparr>)\<rparr>)
                 tabs = Inr d'"
    by (auto split: if_splits option.splits)
  let ?d = "d\<lparr>store := (store d)(p := (store d p)\<lparr>aria_labelledby := Some (elem_id (store d t))\<rparr>)\<rparr>"
  have r: "relabelled d ?d" by (rule relabelled_step)
  have same: "\<And>x. elem_id (store ?d x) = elem_id (store d x)"
    "\<And>x. panelForTab ?d x = panelForTab d x"
    by (rule relabelled_fields [OF r], rule relabelled_queries [OF r])
  from Cons.IH [OF rest]
  have "\<forall>t \<in> set tabs. elem_id (store ?d t) \<noteq> [] \<and> panelForTab ?d t \<noteq> None" .
  then have "\<forall>t \<in> set tabs. elem_id (store d t) \<noteq> [] \<and> panelForTab d t \<noteq> None"
    unfolding same .
  with idt p show ?case by simp
qed

lemma selectTab_tab:
  assumes "wellFormed d" and "t \<in> set (allTabs d)" and "panelForTab d t \<noteq> None"
  shows "\<exists>d'. selectTab d (Some t) = Inr d' \<and> exactlyOnePair d' \<and> selectedTabs d' = [t]"
proof -
  from assms(3) obtain p where p: "panelForTab d t = Some p" by auto
  from assms(1) have dist: "distinct (descendants (tree d))"
    by (simp add: wellFormed_def preorder_descendants)
  from selectTab_Some [OF p] selected_pair [OF dist assms(2) p] show ?thesis by simp
qed

lemma initialTab_in:
  "tabs \<noteq> [] \<Longrightarrow> \<exists>t. initialTab d tabs = Some t \<and> t \<in> set tabs"
proof (cases "find (isSelected d) tabs")
  case None
  assume "tabs \<noteq> []"
  with None show ?thesis by (simp add: initialTab_def)
next
  case (Some x)
  then have "x \<in> set tabs" unfolding find_Some_iff by auto
  with Some show ?thesis by (simp add: initialTab_def)
qed

lemma initialTab_index:
  assumes "initialTab d tabs = Some t" and "tabs \<noteq> []"
  shows "\<exists>i<length tabs. t = tabs ! i \<and>
           ((isSelected d (tabs ! i) \<and> (\<forall>j<i. \<not> isSelected d (tabs ! j)))
            \<or> (i = 0 \<and> (\<forall>j<length tabs. \<not> isSelected d (tabs ! j))))"
proof (cases "find (isSelected d) tabs")
  case None
  then have "\<forall>j<length tabs. \<not> isSelected d (tabs ! j)" by (auto simp: find_None_iff)
  moreover from None assms have "t = tabs ! 0" by (simp add: initialTab_def)
  ultimately show ?thesis using assms(2) by auto
next
  case (Some x)
  with assms have "find (isSelected d) tabs = Some t" by (simp add: initialTab_def)
  then show ?thesis unfolding find_Some_iff by blast
qed

lemma initialTab_cong:
  "(\<And>t. t \<in> set tabs \<Longrightarrow> isSelected d' t = isSelected d t) \<Longrightarrow>
   initialTab d' tabs = initialTab d tabs"
  unfolding initialTab_def by (simp cong: find_cong)

lemma allTabs_desc: "t \<in> set (allTabs d) \<Longrightarrow> t \<in> set (descendants (tree d))"
  by (simp add: allTabs_def)

lemma connected_result:
  assumes wf: "wellFormed d" and ne: "allTabs d \<noteq> []" and res: "connectedCallback d = Inr d'"
  shows "\<exists>t. initialTab d (allTabs d) = Some t \<and> t \<in> set (allTabs d)
            \<and> exactlyOnePair d' \<and> selectedTabs d' = [t]"
proof -
  from res wf ne obtain d4 where lab: "labelPanels (arranged d) (allTabs d) = Inr d4"
    and sel: "selectTab d4 (initialTab d4 (allTabs d)) = Inr d'"
    by (auto simp: connectedCallback_unfold allTabs_prepared split: sum.splits)
  from lab have r: "relabelled (arranged d) d4" by (rule labelPanels_relabelled)
  have wf4: "wellFormed d4"
    using arranged_keeps(1) [OF wf] r by (simp add: wellFormed_def relabelled_def)
  have tabs4: "set (allTabs d4) = set (allTabs d)"
    by (simp add: relabelled_queries [OF r] set_allTabs_arranged [OF wf])
  have "\<And>t. t \<in> set (allTabs d) \<Longrightarrow> isSelected d4 t = isSelected d t"
    using wf by (simp add: relabelled_queries [OF r] isSelected_def store_arranged
        store_prepared_desc allTabs_desc)
  then have ini: "initialTab d4 (allTabs d) = initialTab d (allTabs d)"
    by (rule initialTab_cong)
  from initialTab_in [OF ne] obtain t where t: "initialTab d (allTabs d) = Some t"
    and tin: "t \<in> set (allTabs d)" by blast
  from labelPanels_needs [OF lab] tin have "panelForTab (arranged d) t \<noteq> None" by blast
  then have pf: "panelForTab d4 t \<noteq> None" by (simp add: relabelled_queries [OF r])
  from tin tabs4 have "t \<in> set (allTabs d4)" by simp
  from selectTab_tab [OF wf4 this pf] sel ini t tin show ?thesis by auto
qed

lemma connected_returns:
  assumes wf: "wellFormed d"
    and ids: "\<forall>t \<in> set (allTabs d). elem_id (store d t) \<noteq> [] \<and> panelForTab d t \<noteq> None"
  shows "\<exists>d'. connectedCallback d = Inr d'"
proof (cases "allTabs d = []")
  case True
  with wf show ?thesis by (simp add: connectedCallback_unfold allTabs_prepared)
next
  case False
  have "\<forall>t \<in> set (allTabs d). elem_id (store (arranged d) t) \<noteq> [] \<and> panelForTab (arranged d) t \<noteq> None"
  proof
    fix t assume tin: "t \<in> set (allTabs d)"
    with ids have idt: "elem_id (store d t) \<noteq> []" and "panelForTab d t \<noteq> None" by blast+
    then obtain p where p: "p \<in> set (allPanels d)"
      "Some (elem_id (store d p)) = aria_controls (store d t)"
      unfolding panelForTab_exists by blast
    have same: "store (arranged d) t = store d t" "store (arranged d) p = store d p"
      using wf tin p(1) by (simp_all add: store_arranged store_prepared_desc allTabs_desc allPanels_def)
    from p(1) have "p \<in> set (allPanels (arranged d))" by (simp add: set_allPanels_arranged [OF wf])
    moreover from p(2) same
    have "Some (elem_id (store (arranged d) p)) = aria_controls (store (arranged d) t)" by simp
    ultimately have "panelForTab (arranged d) t \<noteq> None"
      unfolding panelForTab_exists by (rule bexI [rotated])
    with idt same show "elem_id (store (arranged d) t) \<noteq> [] \<and> panelForTab (arranged d) t \<noteq> None"
      by simp
  qed
  from labelPanels_returns [OF this] obtain d4
    where lab: "labelPanels (arranged d) (allTabs d) = Inr d4" by blast
  from lab have r: "relabelled (arranged d) d4" by (rule labelPanels_relabelled)
  have wf4: "wellFormed d4"
    using arranged_keeps(1) [OF wf] r by (simp add: wellFormed_def relabelled_def)
  from initialTab_in [OF False] obtain t where t: "initialTab d4 (allTabs d) = Some t"
    and tin: "t \<in> set (allTabs d)" by blast
  from labelPanels_needs [OF lab] tin have "panelForTab (arranged d) t \<noteq> None" by blast
  then have pf: "panelForTab d4 t \<noteq> None" by (simp add: relabelled_queries [OF r])
  from tin have "t \<in> set (allTabs d4)"
    by (simp add: relabelled_queries [OF r] set_allTabs_arranged [OF wf])
  from selectTab_tab [OF wf4 this pf] obtain d' where "selectTab d4 (Some t) = Inr d'" by blast
  with lab t False wf show ?thesis by (simp add: connectedCallback_unfold allTabs_prepared)
qed

section \<open>The examples\<close>

lemmas example_defs = markupA_def stateA_def blank_def tabElem_def panelElem_def
  allTabs_def allPanels_def descendants_def panelForTab_def wellFormed_def
  deselect_def hide_def click_def keydown_def

lemma markupA_facts:
  "wellFormed markupA" "allTabs markupA = [11, 12, 13]" "allPanels markupA = [21, 22, 23]"
  "panelForTab markupA 11 = Some 21" "panelForTab markupA 12 = Some 22" "panelForTab markupA 13 = Some 23"
  "controllers markupA 11 = [21]" "controllers markupA 12 = [22]" "controllers markupA 13 = [23]"
  by (simp_all add: example_defs controllers_def)

lemma stateA_facts:
  "wellFormed stateA" "allTabs stateA = [11, 12, 13]" "allPanels stateA = [21, 22, 23]"
  "panelForTab stateA 11 = Some 21" "panelForTab stateA 12 = Some 22" "panelForTab stateA 13 = Some 23"
  "selectedIndices stateA = [0]" "controllers stateA 12 = [22]" "controllers stateA 13 = [23]"
  by (simp_all add: example_defs selectedIndices_def isSelected_def controllers_def upt_rec)

lemma stateLast_facts:
  "allTabs stateLast = [11, 12, 13]" "selectedIndices stateLast = [2]"
  "wellFormed stateLast" "controllers stateLast 11 = [21]"
  by (simp_all add: stateLast_def example_defs selectedIndices_def isSelected_def controllers_def
      upt_rec)

lemma markupB_facts:
  "wellFormed markupB" "allTabs markupB = [11, 12, 13]"
  "isSelected markupB 11 = False" "isSelected markupB 12 = True"
  "elem_id (store markupB 11) = ''t1''" "elem_id (store markupB 12) = ''t2''"
  "elem_id (store markupB 13) = ''t3''"
  "panelForTab markupB 11 = Some 21" "panelForTab markupB 12 = Some 22"
  "panelForTab markupB 13 = Some 23"
  by (simp_all add: markupB_def example_defs isSelected_def)

section \<open>The claims\<close>

lemma onClick_tab:
  "target ev \<in> set (allTabs d) \<Longrightarrow> onClick d ev = selectTab d (Some (target ev))"
  by (simp add: onClick_def allTabs_def)

lemma onKeyDown_nav:
  assumes "target ev \<in> set (allTabs d)" and "\<not> altKey ev"
    and "keyCode ev \<in> {KEYCODE_LEFT, KEYCODE_UP, KEYCODE_RIGHT, KEYCODE_DOWN, KEYCODE_HOME, KEYCODE_END}"
  shows "\<exists>t \<in> set (allTabs d). snd (onKeyDown d ev) = selectTab d (Some t)"
proof -
  from assms(1) have ne: "allTabs d \<noteq> []" by auto
  from assms(1) have r: "role (store d (target ev)) = Some ''tab''"
    by (simp add: allTabs_def)
  from prevTab_in [OF ne] nextTab_in [OF ne] firstTab_in [OF ne] lastTab_in [OF ne]
  obtain a b c e where "prevTab d = Some a" "a \<in> set (allTabs d)"
    "nextTab d = Some b" "b \<in> set (allTabs d)"
    "js_nth (allTabs d) (Some 0) = Some c" "c \<in> set (allTabs d)"
    "js_nth (allTabs d) (Some (int (length (allTabs d)) - 1)) = Some e" "e \<in> set (allTabs d)"
    by blast
  with assms(2,3) r show ?thesis
    by (auto simp: onKeyDown_def Let_def KEYCODE_LEFT_def KEYCODE_UP_def KEYCODE_RIGHT_def
        KEYCODE_DOWN_def KEYCODE_HOME_def KEYCODE_END_def)
qed

text \<open>
  Claim C1. In a container with at least one tab, every tab of which names an existing panel
  id in \<open>aria-controls\<close>, each completed transition leaves exactly one tab with
  \<open>aria-selected="true"\<close>, exactly one panel with \<open>aria-hidden="false"\<close>, and that panel is
  the one whose id is the selected tab's \<open>aria-controls\<close>. The transitions are: a click on a
  tab (select explicitly); a key press on a tab, without Alt, of left or up (previous), right
  or down (next), Home (first) or End (last); and the initial selection of
  \<open>connectedCallback\<close>, which completes whenever every tab has an id.
\<close>

theorem one_tab_one_panel_after_transition:
  assumes "wellFormed d" and "allTabs d \<noteq> []"
    and "\<forall>t \<in> set (allTabs d). controllers d t \<noteq> []"
  shows "(\<forall>ev :: event. target ev \<in> set (allTabs d) \<longrightarrow>
            (\<exists>d'. onClick d ev = Inr d' \<and> exactlyOnePair d' \<and> selectedTabs d' = [target ev]))
       \<and> (\<forall>ev :: event. target ev \<in> set (allTabs d) \<and> \<not> altKey ev
               \<and> keyCode ev \<in> {KEYCODE_LEFT, KEYCODE_UP, KEYCODE_RIGHT, KEYCODE_DOWN,
                                 KEYCODE_HOME, KEYCODE_END} \<longrightarrow>
            (\<exists>d'. snd (onKeyDown d ev) = Inr d' \<and> exactlyOnePair d'))
       \<and> (\<forall>d'. connectedCallback d = Inr d' \<longrightarrow> exactlyOnePair d')
       \<and> ((\<forall>t \<in> set (allTabs d). elem_id (store d t) \<noteq> []) \<longrightarrow>
            (\<exists>d'. connectedCallback d = Inr d'))"
proof -
  from assms(3) have pan: "\<forall>t \<in> set (allTabs d). panelForTab d t \<noteq> None"
    by (simp add: controllers_empty)
  show ?thesis
  proof (intro conjI allI impI)
  fix ev :: event assume "target ev \<in> set (allTabs d)"
  with selectTab_tab [OF assms(1), of "target ev"] pan
  show "\<exists>d'. onClick d ev = Inr d' \<and> exactlyOnePair d' \<and> selectedTabs d' = [target ev]"
    by (simp add: onClick_tab)
next
  fix ev :: event
  assume "target ev \<in> set (allTabs d) \<and> \<not> altKey ev
     \<and> keyCode ev \<in> {KEYCODE_LEFT, KEYCODE_UP, KEYCODE_RIGHT, KEYCODE_DOWN, KEYCODE_HOME, KEYCODE_END}"
  then obtain t where t: "t \<in> set (allTabs d)" "snd (onKeyDown d ev) = selectTab d (Some t)"
    using onKeyDown_nav by blast
  with selectTab_tab [OF assms(1), of t] pan
  show "\<exists>d'. snd (onKeyDown d ev) = Inr d' \<and> exactlyOnePair d'" by auto
next
  fix d' assume "connectedCallback d = Inr d'"
  from connected_result [OF assms(1,2) this] show "exactlyOnePair d'" by blast
next
  assume "\<forall>t \<in> set (allTabs d). elem_id (store d t) \<noteq> []"
  with pan have "\<forall>t \<in> set (allTabs d). elem_id (store d t) \<noteq> [] \<and> panelForTab d t \<noteq> None"
    by simp
  with assms(1) show "\<exists>d'. connectedCallback d = Inr d'" by (rule connected_returns)
  qed
qed

text \<open>
  The three-tab markup meets the conditions of C1: a click on the third tab, the left arrow on
  the first tab and the attachment each end with exactly one pair shown.
\<close>

theorem one_tab_one_panel_witness:
  "wellFormed markupA \<and> allTabs markupA = [11, 12, 13] \<and> controllers markupA 11 = [21]
   \<and> controllers markupA 12 = [22] \<and> controllers markupA 13 = [23]
   \<and> (\<exists>d'. onClick markupA (click 13) = Inr d' \<and> exactlyOnePair d' \<and> selectedTabs d' = [13])
   \<and> (\<exists>d'. snd (onKeyDown markupA (keydown 11 37)) = Inr d' \<and> exactlyOnePair d')
   \<and> (\<exists>d'. connectedCallback markupA = Inr d' \<and> exactlyOnePair d')"
proof -
  have wf: "wellFormed markupA" and ne: "allTabs markupA \<noteq> []"
    by (simp_all add: markupA_facts)
  have pan: "\<forall>t \<in> set (allTabs markupA). controllers markupA t \<noteq> []"
    unfolding markupA_facts(2) by (simp add: markupA_facts)
  have ids: "\<forall>t \<in> set (allTabs markupA). elem_id (store markupA t) \<noteq> []"
    unfolding markupA_facts(2) by (simp add: example_defs)
  note main = one_tab_one_panel_after_transition [OF wf ne pan]
  from main have "\<exists>d'. onClick markupA (click 13) = Inr d' \<and> exactlyOnePair d'
      \<and> selectedTabs d' = [target (click 13)]"
    by (simp add: markupA_facts click_def)
  moreover from main have "\<exists>d'. snd (onKeyDown markupA (keydown 11 37)) = Inr d' \<and> exactlyOnePair d'"
    by (simp add: markupA_facts keydown_def KEYCODE_LEFT_def)
  moreover from main ids have "\<exists>d'. connectedCallback markupA = Inr d' \<and> exactlyOnePair d'"
    by blast
  ultimately show ?thesis by (simp add: markupA_facts click_def)
qed

lemma selectTab_tab_result:
  assumes "wellFormed d" and "t \<in> set (allTabs d)" and "selectTab d (Some t) = Inr d'"
  shows "allTabs d' = allTabs d \<and> selectedTabs d' = [t] \<and> exactlyOnePair d'"
proof (cases "panelForTab d t")
  case None
  with assms(3) show ?thesis by (simp add: selectTab_missing)
next
  case (Some p)
  from assms(1) have dist: "distinct (descendants (tree d))"
    by (simp add: wellFormed_def preorder_descendants)
  from assms(3) Some have "d' = selected d t p" by (simp add: selectTab_Some)
  with selected_pair [OF dist assms(2) Some] show ?thesis by (simp add: allTabs_selected)
qed

lemma key_selects:
  assumes "wellFormed d" and "t \<in> set (allTabs d)"
    and "snd (onKeyDown d ev) = selectTab d (Some t)"
  shows "(\<forall>d'. snd (onKeyDown d ev) = Inr d' \<longrightarrow>
            allTabs d' = allTabs d \<and> selectedTabs d' = [t])
       \<and> (controllers d t \<noteq> [] \<longrightarrow> (\<exists>d'. snd (onKeyDown d ev) = Inr d'))"
proof (intro conjI allI impI)
  fix d' assume "snd (onKeyDown d ev) = Inr d'"
  with assms(3) have "selectTab d (Some t) = Inr d'" by simp
  from selectTab_tab_result [OF assms(1,2) this]
  show "allTabs d' = allTabs d" and "selectedTabs d' = [t]" by simp_all
next
  assume "controllers d t \<noteq> []"
  then have "panelForTab d t \<noteq> None" by (simp add: controllers_empty)
  from selectTab_tab [OF assms(1,2) this] assms(3)
  show "\<exists>d'. snd (onKeyDown d ev) = Inr d'" by auto
qed

text \<open>
  Claim C3 (wrap-around). In a container with at least one tab: when the selected tab is the
  one at index 0, \<open>_prevTab\<close> is the tab at index n - 1, and a left or up key pressed on a
  tab selects it: whenever the key press completes, the tab sequence is unchanged and the tab
  at index n - 1 is the one tab with \<open>aria-selected="true"\<close>, and the key press does
  complete when that tab names an existing panel. Likewise, when the selected tab is the one
  at index n - 1, \<open>_nextTab\<close> is the tab at index 0 and a right or down key selects it.
\<close>

theorem wrap_around:
  assumes "wellFormed d" and "allTabs d \<noteq> []"
  shows "(selectedIndices d = [0] \<longrightarrow>
            prevTab d = Some (allTabs d ! (length (allTabs d) - 1))
          \<and> (\<forall>ev :: event. target ev \<in> set (allTabs d) \<and> \<not> altKey ev
                \<and> (keyCode ev = KEYCODE_LEFT \<or> keyCode ev = KEYCODE_UP) \<longrightarrow>
              snd (onKeyDown d ev) = selectTab d (Some (allTabs d ! (length (allTabs d) - 1)))
              \<and> (\<forall>d'. snd (onKeyDown d ev) = Inr d' \<longrightarrow>
                    allTabs d' = allTabs d
                    \<and> selectedTabs d' = [allTabs d ! (length (allTabs d) - 1)])
              \<and> (controllers d (allTabs d ! (length (allTabs d) - 1)) \<noteq> [] \<longrightarrow>
                    (\<exists>d'. snd (onKeyDown d ev) = Inr d'))))
       \<and> (selectedIndices d = [length (allTabs d) - 1] \<longrightarrow>
            nextTab d = Some (allTabs d ! 0)
          \<and> (\<forall>ev :: event. target ev \<in> set (allTabs d) \<and> \<not> altKey ev
                \<and> (keyCode ev = KEYCODE_RIGHT \<or> keyCode ev = KEYCODE_DOWN) \<longrightarrow>
              snd (onKeyDown d ev) = selectTab d (Some (allTabs d ! 0))
              \<and> (\<forall>d'. snd (onKeyDown d ev) = Inr d' \<longrightarrow>
                    allTabs d' = allTabs d \<and> selectedTabs d' = [allTabs d ! 0])
              \<and> (controllers d (allTabs d ! 0) \<noteq> [] \<longrightarrow>
                    (\<exists>d'. snd (onKeyDown d ev) = Inr d'))))"
proof -
  from assms(2) have n: "0 < length (allTabs d)" by simp
  then have lastIn: "allTabs d ! (length (allTabs d) - 1) \<in> set (allTabs d)"
    and firstIn: "allTabs d ! 0 \<in> set (allTabs d)"
    by simp_all
  have prev: "snd (onKeyDown d ev) = selectTab d (Some (allTabs d ! (length (allTabs d) - 1)))"
    if "selectedIndices d = [0]"
      and ev: "target ev \<in> set (allTabs d) \<and> \<not> altKey ev
                 \<and> (keyCode ev = KEYCODE_LEFT \<or> keyCode ev = KEYCODE_UP)"
    for ev :: event
  proof -
    from that(1) have "prevTab d = Some (allTabs d ! (length (allTabs d) - 1))"
      by (rule prevTab_wrap)
    moreover from ev have "role (store d (target ev)) = Some ''tab''" by (simp add: allTabs_def)
    ultimately show ?thesis using ev by (auto simp: onKeyDown_def Let_def)
  qed
  have nxt: "snd (onKeyDown d ev) = selectTab d (Some (allTabs d ! 0))"
    if "selectedIndices d = [length (allTabs d) - 1]"
      and ev: "target ev \<in> set (allTabs d) \<and> \<not> altKey ev
                 \<and> (keyCode ev = KEYCODE_RIGHT \<or> keyCode ev = KEYCODE_DOWN)"
    for ev :: event
  proof -
    from that(1) have "nextTab d = Some (allTabs d ! 0)" by (rule nextTab_wrap)
    moreover from ev have "role (store d (target ev)) = Some ''tab''" by (simp add: allTabs_def)
    ultimately show ?thesis
      using ev by (auto simp: onKeyDown_def Let_def KEYCODE_LEFT_def KEYCODE_UP_def
          KEYCODE_RIGHT_def KEYCODE_DOWN_def)
  qed
  have first: "prevTab d = Some (allTabs d ! (length (allTabs d) - 1))
      \<and> (\<forall>ev :: event. target ev \<in> set (allTabs d) \<and> \<not> altKey ev
            \<and> (keyCode ev = KEYCODE_LEFT \<or> keyCode ev = KEYCODE_UP) \<longrightarrow>
          snd (onKeyDown d ev) = selectTab d (Some (allTabs d ! (length (allTabs d) - 1)))
          \<and> (\<forall>d'. snd (onKeyDown d ev) = Inr d' \<longrightarrow>
                allTabs d' = allTabs d
                \<and> selectedTabs d' = [allTabs d ! (length (allTabs d) - 1)])
          \<and> (controllers d (allTabs d ! (length (allTabs d) - 1)) \<noteq> [] \<longrightarrow>
                (\<exists>d'. snd (onKeyDown d ev) = Inr d')))"
    if sel: "selectedIndices d = [0]"
  proof (rule conjI)
    from sel show "prevTab d = Some (allTabs d ! (length (allTabs d) - 1))"
      by (rule prevTab_wrap)
    show "\<forall>ev :: event. target ev \<in> set (allTabs d) \<and> \<not> altKey ev
            \<and> (keyCode ev = KEYCODE_LEFT \<or> keyCode ev = KEYCODE_UP) \<longrightarrow>
          snd (onKeyDown d ev) = selectTab d (Some (allTabs d ! (length (allTabs d) - 1)))
          \<and> (\<forall>d'. snd (onKeyDown d ev) = Inr d' \<longrightarrow>
                allTabs d' = allTabs d
                \<and> selectedTabs d' = [allTabs d ! (length (allTabs d) - 1)])
          \<and> (controllers d (allTabs d ! (length (allTabs d) - 1)) \<noteq> [] \<longrightarrow>
                (\<exists>d'. snd (onKeyDown d ev) = Inr d'))"
    proof (rule allI, rule impI)
      fix ev :: event
      assume ev: "target ev \<in> set (allTabs d) \<and> \<not> altKey ev
         \<and> (keyCode ev = KEYCODE_LEFT \<or> keyCode ev = KEYCODE_UP)"
      have call: "snd (onKeyDown d ev)
          = selectTab d (Some (allTabs d ! (length (allTabs d) - 1)))"
        by (rule prev [OF sel ev])
      from call key_selects [OF assms(1) lastIn call]
      show "snd (onKeyDown d ev) = selectTab d (Some (allTabs d ! (length (allTabs d) - 1)))
          \<and> (\<forall>d'. snd (onKeyDown d ev) = Inr d' \<longrightarrow>
                allTabs d' = allTabs d
                \<and> selectedTabs d' = [allTabs d ! (length (allTabs d) - 1)])
          \<and> (controllers d (allTabs d ! (length (allTabs d) - 1)) \<noteq> [] \<longrightarrow>
                (\<exists>d'. snd (onKeyDown d ev) = Inr d'))"
        by (rule conjI)
    qed
  qed
  have last: "nextTab d = Some (allTabs d ! 0)
      \<and> (\<forall>ev :: event. target ev \<in> set (allTabs d) \<and> \<not> altKey ev
            \<and> (keyCode ev = KEYCODE_RIGHT \<or> keyCode ev = KEYCODE_DOWN) \<longrightarrow>
          snd (onKeyDown d ev) = selectTab d (Some (allTabs d ! 0))
          \<and> (\<forall>d'. snd (onKeyDown d ev) = Inr d' \<longrightarrow>
                allTabs d' = allTabs d \<and> selectedTabs d' = [allTabs d ! 0])
          \<and> (controllers d (allTabs d ! 0) \<noteq> [] \<longrightarrow>
                (\<exists>d'. snd (onKeyDown d ev) = Inr d')))"
    if sel: "selectedIndices d = [length (allTabs d) - 1]"
  proof (rule conjI)
    from sel show "nextTab d = Some (allTabs d ! 0)" by (rule nextTab_wrap)
    show "\<forall>ev :: event. target ev \<in> set (allTabs d) \<and> \<not> altKey ev
            \<and> (keyCode ev = KEYCODE_RIGHT \<or> keyCode ev = KEYCODE_DOWN) \<longrightarrow>
          snd (onKeyDown d ev) = selectTab d (Some (allTabs d ! 0))
          \<and> (\<forall>d'. snd (onKeyDown d ev) = Inr d' \<longrightarrow>
                allTabs d' = allTabs d \<and> selectedTabs d' = [allTabs d ! 0])
          \<and> (controllers d (allTabs d ! 0) \<noteq> [] \<longrightarrow>
                (\<exists>d'. snd (onKeyDown d ev) = Inr d'))"
    proof (rule allI, rule impI)
      fix ev :: event
      assume ev: "target ev \<in> set (allTabs d) \<and> \<not> altKey ev
         \<and> (keyCode ev = KEYCODE_RIGHT \<or> keyCode ev = KEYCODE_DOWN)"
      have call: "snd (onKeyDown d ev) = selectTab d (Some (allTabs d ! 0))"
        by (rule nxt [OF sel ev])
      from call key_selects [OF assms(1) firstIn call]
      show "snd (onKeyDown d ev) = selectTab d (Some (allTabs d ! 0))
          \<and> (\<forall>d'. snd (onKeyDown d ev) = Inr d' \<longrightarrow>
                allTabs d' = allTabs d \<and> selectedTabs d' = [allTabs d ! 0])
          \<and> (controllers d (allTabs d ! 0) \<noteq> [] \<longrightarrow>
                (\<exists>d'. snd (onKeyDown d ev) = Inr d'))"
        by (rule conjI)
    qed
  qed
  show ?thesis
  proof (rule conjI)
    show "selectedIndices d = [0] \<longrightarrow>
            prevTab d = Some (allTabs d ! (length (allTabs d) - 1))
          \<and> (\<forall>ev :: event. target ev \<in> set (allTabs d) \<and> \<not> altKey ev
                \<and> (keyCode ev = KEYCODE_LEFT \<or> keyCode ev = KEYCODE_UP) \<longrightarrow>
              snd (onKeyDown d ev) = selectTab d (Some (allTabs d ! (length (allTabs d) - 1)))
              \<and> (\<forall>d'. snd (onKeyDown d ev) = Inr d' \<longrightarrow>
                    allTabs d' = allTabs d
                    \<and> selectedTabs d' = [allTabs d ! (length (allTabs d) - 1)])
              \<and> (controllers d (allTabs d ! (length (allTabs d) - 1)) \<noteq> [] \<longrightarrow>
                    (\<exists>d'. snd (onKeyDown d ev) = Inr d')))"
      by (rule impI) (rule first)
    show "selectedIndices d = [length (allTabs d) - 1] \<longrightarrow>
            nextTab d = Some (allTabs d ! 0)
          \<and> (\<forall>ev :: event. target ev \<in> set (allTabs d) \<and> \<not> altKey ev
                \<and> (keyCode ev = KEYCODE_RIGHT \<or> keyCode ev = KEYCODE_DOWN) \<longrightarrow>
              snd (onKeyDown d ev) = selectTab d (Some (allTabs d ! 0))
              \<and> (\<forall>d'. snd (onKeyDown d ev) = Inr d' \<longrightarrow>
                    allTabs d' = allTabs d \<and> selectedTabs d' = [allTabs d ! 0])
              \<and> (controllers d (allTabs d ! 0) \<noteq> [] \<longrightarrow>
                    (\<exists>d'. snd (onKeyDown d ev) = Inr d')))"
      by (rule impI) (rule last)
  qed
qed

text \<open>
  With the first of three tabs selected the left arrow on it selects the third; with the third
  selected the right arrow on it selects the first.
\<close>

theorem wrap_around_witness:
  "wellFormed stateA \<and> allTabs stateA = [11, 12, 13] \<and> selectedIndices stateA = [0]
   \<and> controllers stateA 13 = [23] \<and> prevTab stateA = Some 13
   \<and> (\<exists>d'. snd (onKeyDown stateA (keydown 11 37)) = Inr d'
         \<and> allTabs d' = [11, 12, 13] \<and> selectedTabs d' = [13])
   \<and> wellFormed stateLast \<and> allTabs stateLast = [11, 12, 13] \<and> selectedIndices stateLast = [2]
   \<and> controllers stateLast 11 = [21] \<and> nextTab stateLast = Some 11
   \<and> (\<exists>d'. snd (onKeyDown stateLast (keydown 13 39)) = Inr d'
         \<and> allTabs d' = [11, 12, 13] \<and> selectedTabs d' = [11])"
proof -
  have wfA: "wellFormed stateA" and wfL: "wellFormed stateLast"
    and neA: "allTabs stateA \<noteq> []" and neL: "allTabs stateLast \<noteq> []"
    by (simp_all add: stateA_facts stateLast_facts)
  have selA: "selectedIndices stateA = [0]"
    and selL: "selectedIndices stateLast = [length (allTabs stateLast) - 1]"
    by (simp_all add: stateA_facts stateLast_facts)
  have evA: "target (keydown 11 37) \<in> set (allTabs stateA) \<and> \<not> altKey (keydown 11 37)
      \<and> (keyCode (keydown 11 37) = KEYCODE_LEFT \<or> keyCode (keydown 11 37) = KEYCODE_UP)"
    by (simp add: stateA_facts keydown_def KEYCODE_LEFT_def)
  have evL: "target (keydown 13 39) \<in> set (allTabs stateLast) \<and> \<not> altKey (keydown 13 39)
      \<and> (keyCode (keydown 13 39) = KEYCODE_RIGHT \<or> keyCode (keydown 13 39) = KEYCODE_DOWN)"
    by (simp add: stateLast_facts keydown_def KEYCODE_RIGHT_def)
  have cA: "controllers stateA (allTabs stateA ! (length (allTabs stateA) - 1)) \<noteq> []"
    and cL: "controllers stateLast (allTabs stateLast ! 0) \<noteq> []"
    by (simp_all add: stateA_facts stateLast_facts)
  note a = wrap_around [OF wfA neA, THEN conjunct1, THEN mp, OF selA]
  note a2 = a [THEN conjunct2, THEN spec, THEN mp, OF evA]
  note l = wrap_around [OF wfL neL, THEN conjunct2, THEN mp, OF selL]
  note l2 = l [THEN conjunct2, THEN spec, THEN mp, OF evL]
  from a2 cA have "\<exists>d'. snd (onKeyDown stateA (keydown 11 37)) = Inr d'
      \<and> allTabs d' = allTabs stateA
      \<and> selectedTabs d' = [allTabs stateA ! (length (allTabs stateA) - 1)]"
    by blast
  then have ra: "\<exists>d'. snd (onKeyDown stateA (keydown 11 37)) = Inr d'
      \<and> allTabs d' = [11, 12, 13] \<and> selectedTabs d' = [13]"
    by (simp add: stateA_facts)
  from l2 cL have "\<exists>d'. snd (onKeyDown stateLast (keydown 13 39)) = Inr d'
      \<and> allTabs d' = allTabs stateLast \<and> selectedTabs d' = [allTabs stateLast ! 0]"
    by blast
  then have rl: "\<exists>d'. snd (onKeyDown stateLast (keydown 13 39)) = Inr d'
      \<and> allTabs d' = [11, 12, 13] \<and> selectedTabs d' = [11]"
    by (simp add: stateLast_facts)
  from a [THEN conjunct1] have pa: "prevTab stateA = Some 13" by (simp add: stateA_facts)
  from l [THEN conjunct1] have nl: "nextTab stateLast = Some 11" by (simp add: stateLast_facts)
  from ra rl pa nl show ?thesis by (simp add: stateA_facts stateLast_facts)
qed

text \<open>
  Claim C8. In a container with at least one tab, when \<open>connectedCallback\<close> returns, the one
  tab it has selected is the first tab in document order that carried
  \<open>aria-selected="true"\<close> in the markup, or the first tab overall when no tab was so marked.
  It returns whenever every tab has an id and names an existing panel.
\<close>

theorem initial_selection:
  assumes "wellFormed d" and "allTabs d \<noteq> []"
  shows "(\<forall>d'. connectedCallback d = Inr d' \<longrightarrow>
            (\<exists>i<length (allTabs d). selectedTabs d' = [allTabs d ! i] \<and>
               ((isSelected d (allTabs d ! i) \<and> (\<forall>j<i. \<not> isSelected d (allTabs d ! j)))
                \<or> (i = 0 \<and> (\<forall>j<length (allTabs d). \<not> isSelected d (allTabs d ! j))))))
       \<and> ((\<forall>t \<in> set (allTabs d). elem_id (store d t) \<noteq> [] \<and> controllers d t \<noteq> []) \<longrightarrow>
            (\<exists>d'. connectedCallback d = Inr d'))"
proof (intro conjI allI impI)
  fix d' assume "connectedCallback d = Inr d'"
  from connected_result [OF assms this] obtain t
    where t: "initialTab d (allTabs d) = Some t" and sel: "selectedTabs d' = [t]" by blast
  from initialTab_index [OF t assms(2)] sel
  show "\<exists>i<length (allTabs d). selectedTabs d' = [allTabs d ! i] \<and>
          ((isSelected d (allTabs d ! i) \<and> (\<forall>j<i. \<not> isSelected d (allTabs d ! j)))
           \<or> (i = 0 \<and> (\<forall>j<length (allTabs d). \<not> isSelected d (allTabs d ! j))))"
    by auto
next
  assume "\<forall>t \<in> set (allTabs d). elem_id (store d t) \<noteq> [] \<and> controllers d t \<noteq> []"
  then have "\<forall>t \<in> set (allTabs d). elem_id (store d t) \<noteq> [] \<and> panelForTab d t \<noteq> None"
    by (simp add: controllers_empty)
  with assms(1) show "\<exists>d'. connectedCallback d = Inr d'" by (rule connected_returns)
qed

text \<open>
  With the second and the third tab both marked in the markup, attaching selects the second.
\<close>

theorem initial_selection_witness:
  "wellFormed markupB \<and> allTabs markupB = [11, 12, 13]
   \<and> (\<exists>d'. connectedCallback markupB = Inr d' \<and> selectedTabs d' = [12])"
proof -
  have wf: "wellFormed markupB" and ne: "allTabs markupB \<noteq> []"
    by (simp_all add: markupB_facts)
  have ok: "\<forall>t \<in> set (allTabs markupB). elem_id (store markupB t) \<noteq> [] \<and> controllers markupB t \<noteq> []"
    by (simp add: markupB_facts controllers_empty)
  note main = initial_selection [OF wf ne]
  from main ok obtain d' where d': "connectedCallback markupB = Inr d'" by blast
  with main have "\<exists>i<length (allTabs markupB). selectedTabs d' = [allTabs markupB ! i] \<and>
      ((isSelected markupB (allTabs markupB ! i)
          \<and> (\<forall>j<i. \<not> isSelected markupB (allTabs markupB ! j)))
       \<or> (i = 0 \<and> (\<forall>j<length (allTabs markupB). \<not> isSelected markupB (allTabs markupB ! j))))"
    by blast
  then obtain i where i: "i < length (allTabs markupB)" "selectedTabs d' = [allTabs markupB ! i]"
    "(isSelected markupB (allTabs markupB ! i)
          \<and> (\<forall>j<i. \<not> isSelected markupB (allTabs markupB ! j)))
       \<or> (i = 0 \<and> (\<forall>j<length (allTabs markupB). \<not> isSelected markupB (allTabs markupB ! j)))"
    by blast
  have sel1: "isSelected markupB (allTabs markupB ! 1)"
    and nsel0: "\<not> isSelected markupB (allTabs markupB ! 0)"
    and len: "length (allTabs markupB) = 3"
    by (simp_all add: markupB_facts)
  have "i = 1"
  proof (rule ccontr)
    assume "i \<noteq> 1"
    with i(1) len have "i = 0 \<or> i = 2" by linarith
    then show False
    proof
      assume "i = 0"
      with i(3) nsel0 have "\<forall>j<length (allTabs markupB). \<not> isSelected markupB (allTabs markupB ! j)"
        by simp
      with len have "\<not> isSelected markupB (allTabs markupB ! 1)" by simp
      with sel1 show False by simp
    next
      assume "i = 2"
      with i(3) have "\<forall>j<2. \<not> isSelected markupB (allTabs markupB ! j)" by simp
      then have "\<not> isSelected markupB (allTabs markupB ! 1)" by simp
      with sel1 show False by simp
    qed
  qed
  with i(2) d' show ?thesis by (simp add: markupB_facts)
qed

lemma store_selected:
  "store (selected d t p) h =
     (if h = t then
        (if t = p then (store (reset d) p)\<lparr>aria_hidden := Some ''false''\<rparr> else store (reset d) t)
          \<lparr>aria_selected := Some ''true'', tabIndex := 0\<rparr>
      else if h = p then (store (reset d) p)\<lparr>aria_hidden := Some ''false''\<rparr>
      else store (reset d) h)"
  by (simp add: selected_def Let_def)

lemma selected_fields:
  "activeElement (selected d t p) = Some t" "listeners (selected d t p) = listeners d"
  by (simp_all add: selected_def Let_def reset_def)

lemma selected_idem: "selected (selected d t p) t p = selected d t p"
proof -
  have "store (selected (selected d t p) t p) h = store (selected d t p) h" for h
    unfolding store_selected [of "selected d t p"]
    unfolding store_reset [of "selected d t p"] allTabs_selected allPanels_selected
    unfolding store_selected store_reset
    by (simp add: hide_def deselect_def)
  then have "store (selected (selected d t p) t p) = store (selected d t p)" by (rule ext)
  then show ?thesis
    by (intro dom.equality) (simp_all add: tree_selected selected_fields)
qed

text \<open>
  Claim C10. Selecting is idempotent: for a node whose \<open>aria-controls\<close> names an existing
  panel, \<open>_selectTab\<close> returns, and a second \<open>_selectTab\<close> on the same node returns the very
  same document (every attribute of every node, the focus and the listeners included).
\<close>

theorem select_idempotent:
  assumes "controllers d t \<noteq> []"
  shows "\<exists>d1. selectTab d (Some t) = Inr d1 \<and> selectTab d1 (Some t) = Inr d1"
proof -
  from assms obtain p where p: "panelForTab d t = Some p" by (auto simp: controllers_empty)
  then have "panelForTab (selected d t p) t = Some p" by (simp add: panelForTab_selected)
  from selectTab_Some [OF this] selectTab_Some [OF p] show ?thesis by (simp add: selected_idem)
qed

text \<open>Selecting the second of the three tabs twice.\<close>

theorem select_idempotent_witness:
  "controllers stateA 12 = [22]
   \<and> (\<exists>d1. selectTab stateA (Some 12) = Inr d1 \<and> selectTab d1 (Some 12) = Inr d1)"
proof -
  have "controllers stateA 12 \<noteq> []" by (simp add: stateA_facts)
  from select_idempotent [OF this] show ?thesis by (simp add: stateA_facts)
qed

lemma store_reset_tab: "h \<in> set (allTabs d) \<Longrightarrow> store (reset d) h = deselect (store d h)"
  by (auto simp: store_reset dest: tab_not_panel)

lemma store_reset_panel: "h \<in> set (allPanels d) \<Longrightarrow> store (reset d) h = hide (store d h)"
  by (simp add: store_reset)

text \<open>
  Claim C2 says that selecting a tab whose \<open>aria-controls\<close> matches no panel id throws and
  leaves every attribute as it was. It throws, but after the reset: with the first tab selected
  and its panel shown, selecting the second tab, which controls \<open>missing-id\<close>, leaves the
  first tab deselected and its panel hidden.
\<close>

theorem select_missing_panel_counterexample:
  "controllers stateF 12 = []
   \<and> selectTab stateF (Some 12) = Inl (ReferenceError ''newPanelId'', reset stateF)
   \<and> aria_selected (store stateF 11) = Some ''true''
   \<and> aria_selected (store (reset stateF) 11) = Some ''false''
   \<and> aria_hidden (store stateF 21) = Some ''false''
   \<and> aria_hidden (store (reset stateF) 21) = Some ''true''"
proof -
  have none: "panelForTab stateF 12 = None"
    and tabs: "11 \<in> set (allTabs stateF)" and panels: "21 \<in> set (allPanels stateF)"
    and before: "aria_selected (store stateF 11) = Some ''true''"
      "aria_hidden (store stateF 21) = Some ''false''"
    by (simp_all add: stateF_def example_defs)
  from selectTab_missing [OF none] none before show ?thesis
    by (simp add: controllers_empty store_reset_tab [OF tabs] store_reset_panel [OF panels]
        hide_def deselect_def)
qed

text \<open>
  Claim C2, as the code has it. Selecting a node whose \<open>aria-controls\<close> matches no panel id
  throws (a ReferenceError, from the undeclared \<open>newPanelId\<close> in the message) once the reset
  has run: every tab is left with \<open>aria-selected="false"\<close> and \<open>tabIndex = -1\<close>, every panel
  with \<open>aria-hidden="true"\<close>, so no tab is selected and no panel is shown; every other node,
  the tree, the focus and the listeners are as before.
\<close>

theorem select_missing_panel_resets:
  assumes "controllers d t = []"
  shows "selectTab d (Some t) = Inl (ReferenceError ''newPanelId'', reset d)
       \<and> (\<forall>h \<in> set (allTabs d). store (reset d) h = deselect (store d h))
       \<and> (\<forall>h \<in> set (allPanels d). store (reset d) h = hide (store d h))
       \<and> (\<forall>h. h \<notin> set (allTabs d) \<and> h \<notin> set (allPanels d) \<longrightarrow> store (reset d) h = store d h)
       \<and> selectedTabs (reset d) = [] \<and> visiblePanels (reset d) = []
       \<and> tree (reset d) = tree d \<and> activeElement (reset d) = activeElement d
       \<and> listeners (reset d) = listeners d"
proof (intro conjI ballI allI impI)
  from assms have "panelForTab d t = None" by (simp add: controllers_empty)
  then show "selectTab d (Some t) = Inl (ReferenceError ''newPanelId'', reset d)"
    by (rule selectTab_missing)
next
  fix h assume "h \<in> set (allTabs d)"
  then show "store (reset d) h = deselect (store d h)" by (rule store_reset_tab)
next
  fix h assume "h \<in> set (allPanels d)"
  then show "store (reset d) h = hide (store d h)" by (simp add: store_reset)
next
  fix h assume "h \<notin> set (allTabs d) \<and> h \<notin> set (allPanels d)"
  then show "store (reset d) h = store d h" by (simp add: store_reset)
next
  show "selectedTabs (reset d) = []"
    by (auto simp: selectedTabs_def allTabs_reset filter_empty_conv isSelected_def store_reset_tab
        deselect_def)
next
  show "visiblePanels (reset d) = []"
    by (auto simp: visiblePanels_def allPanels_reset filter_empty_conv store_reset_panel hide_def)
qed (simp_all add: reset_def Let_def)

text \<open>The second tab controlling \<open>missing-id\<close>, while the first tab is selected.\<close>

theorem select_missing_panel_witness:
  "controllers stateF 12 = []
   \<and> selectTab stateF (Some 12) = Inl (ReferenceError ''newPanelId'', reset stateF)
   \<and> store (reset stateF) 11 = deselect (store stateF 11)
   \<and> store (reset stateF) 21 = hide (store stateF 21)
   \<and> store (reset stateF) 30 = store stateF 30
   \<and> selectedTabs (reset stateF) = [] \<and> visiblePanels (reset stateF) = []"
proof -
  have none: "controllers stateF 12 = []"
    and tabs: "allTabs stateF = [11, 12, 13]" and panels: "allPanels stateF = [21, 22, 23]"
    by (simp_all add: stateF_def controllers_def example_defs)
  from select_missing_panel_resets [OF none] none show ?thesis
    by (simp add: tabs panels)
qed

lemma listeners_prepared:
  "listeners (prepared d) = List.insert ''click'' (List.insert ''keydown'' (listeners d))"
  by (simp add: prepared_def addEventListener_def Let_def)

lemma activeElement_prepared: "activeElement (prepared d) = activeElement d"
  by (simp add: prepared_def addEventListener_def Let_def)

text \<open>
  Claim C7 says that attaching a container without tabs attaches no listener. The two
  listeners are registered by the first two statements of \<open>connectedCallback\<close>, before the
  tabs are counted: a container holding one panel and no tab has both after attaching.
\<close>

theorem empty_container_counterexample:
  "allTabs hollow = [] \<and> listeners hollow = []
   \<and> connectedCallback hollow = Inr (prepared hollow)
   \<and> listeners (prepared hollow) = [''click'', ''keydown'']"
proof -
  have wf: "wellFormed hollow" and e: "allTabs hollow = []" and l: "listeners hollow = []"
    by (simp_all add: hollow_def example_defs)
  from e wf have "connectedCallback hollow = Inr (prepared hollow)"
    by (simp add: connectedCallback_unfold allTabs_prepared)
  with e l show ?thesis by (simp add: listeners_prepared)
qed

text \<open>
  Claim C7, as the code has it. Attaching a container without tabs returns normally, having
  registered the \<open>keydown\<close> and \<open>click\<close> listeners and set the container's role to
  \<open>tablist\<close>, and nothing else: no other attribute of any node changes, no node moves, the
  focus stays, no tab becomes selected and no panel changes its hidden state.
\<close>

theorem empty_container_attach:
  assumes "wellFormed d" and "allTabs d = []"
  shows "\<exists>d'. connectedCallback d = Inr d'
           \<and> listeners d' = List.insert ''click'' (List.insert ''keydown'' (listeners d))
           \<and> store d' (this d) = (store d (this d))\<lparr>role := Some ''tablist''\<rparr>
           \<and> (\<forall>h. h \<noteq> this d \<longrightarrow> store d' h = store d h)
           \<and> tree d' = tree d \<and> activeElement d' = activeElement d
           \<and> selectedTabs d' = selectedTabs d \<and> visiblePanels d' = visiblePanels d"
proof -
  from assms have "connectedCallback d = Inr (prepared d)"
    by (simp add: connectedCallback_unfold allTabs_prepared)
  moreover have "selectedTabs (prepared d) = selectedTabs d"
    by (simp add: selectedTabs_def allTabs_prepared assms)
  moreover have "visiblePanels (prepared d) = visiblePanels d"
    unfolding visiblePanels_def allPanels_prepared [OF assms(1)]
    by (rule filter_cong) (simp_all add: store_prepared_desc [OF assms(1)] allPanels_def)
  ultimately show ?thesis
    by (simp add: listeners_prepared store_prepared tree_prepared activeElement_prepared this_def)
qed

text \<open>The container holding one panel and no tab.\<close>

theorem empty_container_witness:
  "wellFormed hollow \<and> allTabs hollow = []
   \<and> (\<exists>d'. connectedCallback hollow = Inr d'
         \<and> listeners d' = [''click'', ''keydown'']
         \<and> role (store d' 0) = Some ''tablist''
         \<and> store d' 21 = store hollow 21
         \<and> selectedTabs d' = [] \<and> visiblePanels d' = [])"
proof -
  have wf: "wellFormed hollow" and e: "allTabs hollow = []"
    by (simp_all add: hollow_def example_defs)
  have more: "listeners hollow = []" "this hollow = 0" "selectedTabs hollow = []"
    "visiblePanels hollow = []"
    by (simp_all add: this_def selectedTabs_def visiblePanels_def hollow_def example_defs)
  from empty_container_attach [OF wf e] obtain d' where "connectedCallback hollow = Inr d'"
    "listeners d' = List.insert ''click'' (List.insert ''keydown'' (listeners hollow))"
    "store d' (this hollow) = (store hollow (this hollow))\<lparr>role := Some ''tablist''\<rparr>"
    "\<forall>h. h \<noteq> this hollow \<longrightarrow> store d' h = store hollow h"
    "selectedTabs d' = selectedTabs hollow" "visiblePanels d' = visiblePanels hollow"
    by blast
  with wf e more show ?thesis by simp
qed

lemma short_mset_eq:
  assumes "mset xs = mset ys" and "length xs \<le> 1"
  shows "ys = xs"
proof (cases xs)
  case Nil
  with assms show ?thesis by simp
next
  case (Cons a as)
  with assms(2) have "xs = [a]" by simp
  with assms(1) show ?thesis by (simp add: mset_single_iff_right)
qed

lemma find_permuted:
  assumes "mset ys = mset xs" and "length (filter P xs) \<le> 1"
  shows "find P ys = find P xs"
proof -
  from assms(1) have "mset (filter P xs) = mset (filter P ys)" by simp
  from short_mset_eq [OF this assms(2)] show ?thesis by (simp add: find_filter_hd)
qed

lemma store_reset_eq:
  assumes "store d' = store d" and "allTabs d' = allTabs d"
    and "set (allPanels d') = set (allPanels d)"
  shows "store (reset d') = store (reset d)"
  by (rule ext) (simp add: store_reset assms)

text \<open>
  Claim C9 says that permuting the panels never changes the panel resolved for a tab. The
  lookup takes the first panel in document order with the id: of two panels sharing the id
  \<open>p1\<close>, exchanging them changes the panel resolved for the tab that controls \<open>p1\<close>.
\<close>

theorem panel_lookup_counterexample:
  "store twinsSwapped = store twins
   \<and> allTabs twinsSwapped = allTabs twins
   \<and> mset (allPanels twinsSwapped) = mset (allPanels twins)
   \<and> panelForTab twins 11 = Some 21
   \<and> panelForTab twinsSwapped 11 = Some 22"
  by (simp add: twinsSwapped_def twins_def example_defs)

text \<open>
  Claim C9, as the code has it. For a node and a permutation of the panels' document order
  that leaves the attributes and the tab sequence unchanged: when at most one panel has the id
  that the node's \<open>aria-controls\<close> names, \<open>_panelForTab\<close> resolves the same panel (or none)
  in both orders, and a successful \<open>_selectTab\<close> on the node leaves the same attributes, so
  the same panel is shown.
\<close>

theorem panel_lookup_order_independent:
  assumes "store d' = store d"
    and "allTabs d' = allTabs d"
    and "mset (allPanels d') = mset (allPanels d)"
    and "length (controllers d tab) \<le> 1"
  shows "panelForTab d' tab = panelForTab d tab
       \<and> (\<forall>x. selectTab d (Some tab) = Inr x \<longrightarrow>
            (\<exists>x'. selectTab d' (Some tab) = Inr x' \<and> store x' = store x))"
proof -
  have pf: "panelForTab d' tab = panelForTab d tab"
    unfolding panelForTab_def Let_def assms(1)
    using assms(3,4) unfolding controllers_def by (rule find_permuted)
  from assms(3) have "set (allPanels d') = set (allPanels d)" by (rule mset_eq_setD)
  with assms(1,2) have rs: "store (reset d') = store (reset d)" by (rule store_reset_eq)
  have "\<exists>x'. selectTab d' (Some tab) = Inr x' \<and> store x' = store x"
    if "selectTab d (Some tab) = Inr x" for x
  proof -
    from that obtain p where p: "panelForTab d tab = Some p"
      by (cases "panelForTab d tab") (simp_all add: selectTab_missing)
    with that have x: "x = selected d tab p" by (simp add: selectTab_Some)
    from p pf have "selectTab d' (Some tab) = Inr (selected d' tab p)" by (simp add: selectTab_Some)
    moreover have "store (selected d' tab p) = store (selected d tab p)"
      by (rule ext) (simp add: store_selected rs)
    ultimately show ?thesis using x by simp
  qed
  with pf show ?thesis by blast
qed

text \<open>The three-tab markup with its first and last panel exchanged, and the third tab.\<close>

theorem panel_lookup_witness:
  "store markupA_swapped = store markupA
   \<and> allTabs markupA_swapped = [11, 12, 13] \<and> allTabs markupA = [11, 12, 13]
   \<and> allPanels markupA_swapped = [23, 22, 21] \<and> allPanels markupA = [21, 22, 23]
   \<and> controllers markupA 13 = [23]
   \<and> panelForTab markupA_swapped 13 = Some 23 \<and> panelForTab markupA 13 = Some 23
   \<and> selectTab markupA (Some 13) = Inr (selected markupA 13 23)
   \<and> selectTab markupA_swapped (Some 13) = Inr (selected markupA_swapped 13 23)
   \<and> store (selected markupA_swapped 13 23) = store (selected markupA 13 23)"
proof -
  have s: "store markupA_swapped = store markupA"
    and t: "allTabs markupA_swapped = [11, 12, 13]"
    and p: "allPanels markupA_swapped = [23, 22, 21]"
    and c: "controllers markupA 13 = [23]"
    by (simp_all add: markupA_swapped_def controllers_def example_defs)
  have h2: "allTabs markupA_swapped = allTabs markupA" by (simp add: t markupA_facts)
  have h3: "mset (allPanels markupA_swapped) = mset (allPanels markupA)"
    by (simp add: p markupA_facts)
  have h4: "length (controllers markupA 13) \<le> 1" by (simp add: c)
  have x: "selectTab markupA (Some 13) = Inr (selected markupA 13 23)"
    by (simp add: selectTab_Some markupA_facts)
  from panel_lookup_order_independent [OF s h2 h3 h4]
  have pf: "panelForTab markupA_swapped 13 = panelForTab markupA 13"
    and "\<exists>x'. selectTab markupA_swapped (Some 13) = Inr x'
           \<and> store x' = store (selected markupA 13 23)"
    using x by blast+
  then have "selectTab markupA_swapped (Some 13) = Inr (selected markupA_swapped 13 23)
      \<and> store (selected markupA_swapped 13 23) = store (selected markupA 13 23)"
    by (auto simp: selectTab_Some markupA_facts)
  with pf x s t p c show ?thesis by (simp add: markupA_facts)
qed

text \<open>
  Attaching never completes when some tab has no id: the labelling loop throws at that tab, or
  at an earlier one.
\<close>

lemma attach_needs_ids:
  assumes "wellFormed d" and "t \<in> set (allTabs d)" and "elem_id (store d t) = []"
  shows "isl (connectedCallback d)"
proof (rule ccontr)
  assume "\<not> isl (connectedCallback d)"
  then obtain d' where res: "connectedCallback d = Inr d'" by (cases "connectedCallback d") auto
  from assms(2) have ne: "allTabs d \<noteq> []" by auto
  from res assms(1) ne obtain d4 where "labelPanels (arranged d) (allTabs d) = Inr d4"
    by (auto simp: connectedCallback_unfold allTabs_prepared split: sum.splits)
  from labelPanels_needs [OF this] assms(2) have "elem_id (store (arranged d) t) \<noteq> []" by blast
  with assms show False by (simp add: store_arranged store_prepared_desc allTabs_desc)
qed

text \<open>
  Claim C4 says that a tab without an id gets a warning and that the setup goes on. In the
  three-tab markup with the id of the second tab removed, \<open>connectedCallback\<close> throws a
  ReferenceError while building the warning (\<open>panelId\<close> is not in scope there): the first
  panel has been labelled, the third has not, and no tab has been selected.
\<close>

theorem attach_throws_without_id:
  "allTabs markupNoId = [11, 12, 13] \<and> elem_id (store markupNoId 12) = []
   \<and> panelForTab markupNoId 12 = Some 22
   \<and> isl (connectedCallback markupNoId)
   \<and> fst (projl (connectedCallback markupNoId)) = ReferenceError ''panelId''
   \<and> selectedTabs (snd (projl (connectedCallback markupNoId))) = []
   \<and> visiblePanels (snd (projl (connectedCallback markupNoId))) = []
   \<and> aria_labelledby (store (snd (projl (connectedCallback markupNoId))) 21) = Some ''t1''
   \<and> aria_labelledby (store (snd (projl (connectedCallback markupNoId))) 23) = None"
  by (simp add: markupNoId_def example_defs connectedCallback_def addEventListener_def this_def
      moveToEnd_def moveChild_def movedNodes_def selectedTabs_def visiblePanels_def
      isSelected_def Let_def)

text \<open>
  Claim C5 says that a click is acted upon only when its target has the role \<open>tab\<close>. With the
  first tab selected, a click whose target is the first panel (role \<open>tabpanel\<close>) runs
  \<open>_selectTab\<close> on the panel: every tab is deselected, every panel hidden, and the call
  throws.
\<close>

theorem click_on_panel_resets:
  "role (store stateA 21) = Some ''tabpanel''
   \<and> selectedTabs stateA = [11] \<and> visiblePanels stateA = [21]
   \<and> onClick stateA (click 21) = Inl (ReferenceError ''newPanelId'', reset stateA)
   \<and> selectedTabs (reset stateA) = [] \<and> visiblePanels (reset stateA) = []"
proof -
  have "panelForTab stateA 21 = None" "role (store stateA 21) = Some ''tabpanel''"
    "selectedTabs stateA = [11]" "visiblePanels stateA = [21]"
    by (simp_all add: selectedTabs_def visiblePanels_def isSelected_def example_defs)
  moreover have "selectedTabs (reset stateA) = []"
    by (auto simp: selectedTabs_def allTabs_reset filter_empty_conv isSelected_def store_reset_tab
        deselect_def)
  moreover have "visiblePanels (reset stateA) = []"
    by (auto simp: visiblePanels_def allPanels_reset filter_empty_conv store_reset_panel hide_def)
  ultimately show ?thesis by (simp add: onClick_def click_def selectTab_missing)
qed

text \<open>Every key press that reaches \<open>_onKeyDown\<close> has its default action prevented.\<close>

lemma onKeyDown_prevents: "defaultPrevented (fst (onKeyDown d ev))"
  by (simp add: onKeyDown_def Let_def)

text \<open>
  Claim C6 says that the default action is suppressed only for a navigation key on a tab. The
  key \<open>A\<close> (code 65) pressed on a tab, and the right arrow pressed inside a panel, change
  nothing in the document, and both have their default action prevented.
\<close>

theorem keydown_prevents_default_for_any_key:
  "\<not> defaultPrevented (keydown 11 65)
   \<and> role (store stateA 11) = Some ''tab''
   \<and> defaultPrevented (fst (onKeyDown stateA (keydown 11 65)))
   \<and> snd (onKeyDown stateA (keydown 11 65)) = Inr stateA
   \<and> role (store stateA 21) = Some ''tabpanel''
   \<and> defaultPrevented (fst (onKeyDown stateA (keydown 21 39)))
   \<and> snd (onKeyDown stateA (keydown 21 39)) = Inr stateA"
  by (simp add: onKeyDown_def Let_def keydown_def example_defs KEYCODE_LEFT_def KEYCODE_UP_def
      KEYCODE_RIGHT_def KEYCODE_DOWN_def KEYCODE_HOME_def KEYCODE_END_def)

end
